theory Spec2Isabelle
  imports Complex_Main "HOL-Library.AList" "HOL-Library.Sublist" "HOL-Library.Multiset"
begin

section \<open>Strings and numbers of the JavaScript runtime\<close>

text \<open>
  Strings are lists of characters, a character standing for one code unit below 256.
  The \<open>i\<close> flag of the source's regular expressions compares characters after ASCII
  upper-casing (a character outside ASCII never matches an ASCII letter of a pattern), and
  the resolver applies \<open>toUpperCase\<close> and \<open>toLowerCase\<close> to the ASCII letters of a
  month match only. \<open>toUpperCase\<close> and \<open>toLowerCase\<close> below are these ASCII mappings.
  The list filter lower-cases arbitrary text: there the case mapping is a parameter
  (\<open>jsToLowerCase\<close>).
\<close>

definition lowerLetters :: string where
  "lowerLetters = ''abcdefghijklmnopqrstuvwxyz''"

definition upperLetters :: string where
  "upperLetters = ''ABCDEFGHIJKLMNOPQRSTUVWXYZ''"

definition toUpperChar :: "char \<Rightarrow> char" where
  "toUpperChar c = (case map_of (zip lowerLetters upperLetters) c of Some u \<Rightarrow> u | None \<Rightarrow> c)"

definition toLowerChar :: "char \<Rightarrow> char" where
  "toLowerChar c = (case map_of (zip upperLetters lowerLetters) c of Some l \<Rightarrow> l | None \<Rightarrow> c)"

definition toUpperCase :: "string \<Rightarrow> string" where
  "toUpperCase s = map toUpperChar s"

definition toLowerCase :: "string \<Rightarrow> string" where
  "toLowerCase s = map toLowerChar s"

definition isDigit :: "char \<Rightarrow> bool" where
  "isDigit c = (c \<in> set ''0123456789'')"

definition digitVal :: "char \<Rightarrow> nat" where
  "digitVal c = (case map_of (zip ''0123456789'' [0, 1, 2, 3, 4, 5, 6, 7, 8, 9]) c of
                   Some d \<Rightarrow> d | None \<Rightarrow> 0)"

text \<open>\<open>parseInt\<close> on a capture group of \<open>\d\<close>s: the decimal value of the digits.\<close>

definition parseInt :: "string \<Rightarrow> nat" where
  "parseInt ds = foldl (\<lambda>n c. 10 * n + digitVal c) 0 ds"

definition digitChar :: "nat \<Rightarrow> char" where
  "digitChar d = ''0123456789'' ! (d mod 10)"

text \<open>Number to string, for integers: decimal digits, no leading zero, a sign when negative.\<close>

fun natToString :: "nat \<Rightarrow> string" where
  "natToString n = (if n < 10 then [digitChar n] else natToString (n div 10) @ [digitChar n])"

declare natToString.simps [simp del]

definition numberToString :: "int \<Rightarrow> string" where
  "numberToString i = (if i < 0 then CHR ''-'' # natToString (nat (- i)) else natToString (nat i))"

section \<open>Regular-expression search\<close>

text \<open>
  \<open>String.prototype.match\<close> with a pattern without the \<open>g\<close> flag: the pattern is tried at
  position 0, 1, 2, ... of the subject and the first position where it matches gives the
  result; \<open>here\<close> is the pattern anchored at the head of its argument.
\<close>

fun regexSearch :: "(string \<Rightarrow> 'a option) \<Rightarrow> string \<Rightarrow> 'a option" where
  "regexSearch here [] = here []"
| "regexSearch here (c # cs) =
     (case here (c # cs) of Some m \<Rightarrow> Some m | None \<Rightarrow> regexSearch here cs)"

text \<open>\<open>\d{1,2}\<close>: the ways to match at the head, greedy first, each with the rest.\<close>

fun digits12 :: "string \<Rightarrow> (string \<times> string) list" where
  "digits12 (a # b # r) =
     (if isDigit a \<and> isDigit b then [([a, b], r), ([a], b # r)]
      else if isDigit a then [([a], b # r)] else [])"
| "digits12 [a] = (if isDigit a then [([a], [])] else [])"
| "digits12 [] = []"

text \<open>\<open>[\/\-]\<close>\<close>

fun dateSeparator :: "string \<Rightarrow> string list" where
  "dateSeparator (c # r) = (if c = CHR ''/'' \<or> c = CHR ''-'' then [r] else [])"
| "dateSeparator [] = []"

text \<open>\<open>\d{4}\<close>\<close>

fun digits4 :: "string \<Rightarrow> string list" where
  "digits4 (a # b # c # d # r) =
     (if isDigit a \<and> isDigit b \<and> isDigit c \<and> isDigit d then [[a, b, c, d]] else [])"
| "digits4 _ = []"

text \<open>
  \<open>/(\d{1,2})[\/\-](\d{1,2})[\/\-](\d{4})/\<close> anchored: the backtracking matcher takes the
  first successful combination; the result holds the three capture groups.
\<close>

definition numericDateHere :: "string \<Rightarrow> (string \<times> string \<times> string) option" where
  "numericDateHere s =
     (case concat (map (\<lambda>(g1, r1).
             concat (map (\<lambda>r2.
               concat (map (\<lambda>(g2, r3).
                 concat (map (\<lambda>r4.
                   map (\<lambda>g3. (g1, g2, g3)) (digits4 r4))
                 (dateSeparator r3)))
               (digits12 r2)))
             (dateSeparator r1)))
           (digits12 s)) of
        [] \<Rightarrow> None
      | m # _ \<Rightarrow> Some m)"

text \<open>\<open>/20[2-3]\d/\<close> anchored.\<close>

fun yearHere :: "string \<Rightarrow> string option" where
  "yearHere (a # b # c # d # r) =
     (if a = CHR ''2'' \<and> b = CHR ''0'' \<and> (c = CHR ''2'' \<or> c = CHR ''3'') \<and> isDigit d
      then Some [a, b, c, d] else None)"
| "yearHere _ = None"

definition months :: "string list" where
  "months = [''Jan'', ''Feb'', ''Mar'', ''Apr'', ''May'', ''Jun'',
             ''Jul'', ''Aug'', ''Sep'', ''Oct'', ''Nov'', ''Dec'']"

definition fullMonths :: "string list" where
  "fullMonths = [''January'', ''February'', ''March'', ''April'', ''May'', ''June'', ''July'',
                 ''August'', ''September'', ''October'', ''November'', ''December'']"

text \<open>
  A literal under the \<open>i\<close> flag matches at the head when the two agree character by
  character after canonicalisation (upper-casing).
\<close>

definition literalHereCI :: "string \<Rightarrow> string \<Rightarrow> bool" where
  "literalHereCI lit s =
     (length lit \<le> length s \<and> toUpperCase (take (length lit) s) = toUpperCase lit)"

text \<open>
  \<open>new RegExp(`(${months.join('|')}|January|...|December)`, 'i')\<close> anchored: the
  alternatives are tried from left to right, the first that matches gives the matched text.
\<close>

definition monthHere :: "string \<Rightarrow> string option" where
  "monthHere s =
     (case filter (\<lambda>alt. literalHereCI alt s) (months @ fullMonths) of
        [] \<Rightarrow> None
      | alt # _ \<Rightarrow> Some (take (length alt) s))"

section \<open>Dates of the runtime\<close>

text \<open>
  What the source takes from its environment is a parameter: the local time zone
  adjustment (in milliseconds, at a given instant), the \<open>Date\<close> constructor's parser for
  strings (implementation-defined outside the ISO format; \<open>None\<close> is an invalid date) and
  \<open>toLocaleString('default', {month: 'short', year: 'numeric'})\<close> of the runtime's default
  locale, as a function of the month index and the year.
\<close>

record runtime =
  localTZA :: "int \<Rightarrow> int"
  dateParse :: "string \<Rightarrow> int option"
  formatMonthYear :: "nat \<Rightarrow> int \<Rightarrow> string"

text \<open>A time value is a number of milliseconds since the epoch, or \<open>None\<close> for \<open>NaN\<close>.\<close>

definition newDate :: "int \<Rightarrow> int option" where
  "newDate ms = (if \<bar>ms\<bar> \<le> 8640000000000000 then Some ms else None)"

text \<open>Year and month index (0 to 11) of a day number, in the proleptic Gregorian calendar.\<close>

definition civilFromDays :: "int \<Rightarrow> int \<times> nat" where
  "civilFromDays days =
     (let z = days + 719468;
          era = z div 146097;
          doe = z - era * 146097;
          yoe = (doe - doe div 1460 + doe div 36524 - doe div 146096) div 365;
          doy = doe - (365 * yoe + yoe div 4 - yoe div 100);
          mp = (5 * doy + 2) div 153;
          m = (if mp < 10 then mp + 3 else mp - 9);
          y = yoe + era * 400 + (if m \<le> 2 then 1 else 0)
      in (y, nat (m - 1)))"

definition localDay :: "runtime \<Rightarrow> int \<Rightarrow> int" where
  "localDay rt t = (t + localTZA rt t) div 86400000"

definition getFullYear :: "runtime \<Rightarrow> int \<Rightarrow> int" where
  "getFullYear rt t = fst (civilFromDays (localDay rt t))"

definition getMonth :: "runtime \<Rightarrow> int \<Rightarrow> nat" where
  "getMonth rt t = snd (civilFromDays (localDay rt t))"

text \<open>\<open>date.getFullYear().toString()\<close>\<close>

definition fullYearString :: "runtime \<Rightarrow> int option \<Rightarrow> string" where
  "fullYearString rt date =
     (case date of None \<Rightarrow> ''NaN'' | Some t \<Rightarrow> numberToString (getFullYear rt t))"

text \<open>\<open>date.toLocaleString('default', { month: 'short', year: 'numeric' })\<close>\<close>

definition toLocaleMonthYear :: "runtime \<Rightarrow> int option \<Rightarrow> string" where
  "toLocaleMonthYear rt date =
     (case date of
        None \<Rightarrow> ''Invalid Date''
      | Some t \<Rightarrow> formatMonthYear rt (getMonth rt t) (getFullYear rt t))"

section \<open>Bill records (types.ts)\<close>

datatype BillStatus = Paid | Unpaid

record BillData =
  billName :: string
  dateOfPeriod :: string
  dueDate :: "string option"
  amount :: rat
  currency :: string
  summary :: "string option"

record BillRecord = BillData +
  bill_id :: string
  createdAt :: int
  status :: BillStatus

text \<open>\<open>s || ''\<close> for an optional string.\<close>

definition orEmpty :: "string option \<Rightarrow> string" where
  "orEmpty s = (case s of None \<Rightarrow> [] | Some v \<Rightarrow> v)"

section \<open>The period resolver\<close>

text \<open>\<open>months[i]\<close> in a template literal: an index past the end reads \<open>undefined\<close>.\<close>

definition monthsAt :: "nat \<Rightarrow> string" where
  "monthsAt i = (if i < length months then months ! i else ''undefined'')"

text \<open>
  \<open>getBillMonthYear\<close> of App.tsx (part_002, lines 66 to 107). Each \<open>return\<close> of the source
  is a \<open>Some\<close> of the layer's key; the next layer runs on \<open>None\<close>.
\<close>

definition getBillMonthYear :: "runtime \<Rightarrow> BillRecord \<Rightarrow> string" where
  "getBillMonthYear rt bill =
     (let text = dateOfPeriod bill @ '' '' @ orEmpty (dueDate bill);
          numericMatch = regexSearch numericDateHere (dateOfPeriod bill);
          numericKey =
            (case numericMatch of
               None \<Rightarrow> None
             | Some (g1, g2, g3) \<Rightarrow>
                 (let p2 = parseInt g2; p3 = parseInt g3
                  in if 1 \<le> p2 \<and> p2 \<le> 12
                     then Some (monthsAt (p2 - 1) @ '' '' @ numberToString (int p3))
                     else None))
      in case numericKey of
           Some key \<Rightarrow> key
         | None \<Rightarrow>
             (let yearMatch = regexSearch yearHere text;
                  year = (case yearMatch of
                            Some y \<Rightarrow> y
                          | None \<Rightarrow> fullYearString rt (newDate (createdAt bill)));
                  monthMatch = regexSearch monthHere text;
                  textKey =
                    (case monthMatch of
                       None \<Rightarrow> None
                     | Some m \<Rightarrow>
                         (let shortMonth = take 3 m;
                              normalized = toUpperCase (take 1 shortMonth)
                                             @ toLowerCase (drop 1 shortMonth)
                          in if normalized \<in> set months
                             then Some (normalized @ '' '' @ year) else None))
              in case textKey of
                   Some key \<Rightarrow> key
                 | None \<Rightarrow>
                     (let dateAttempt = dateParse rt (dateOfPeriod bill)
                      in if (case dateAttempt of
                               Some t \<Rightarrow> getFullYear rt t > 2000
                             | None \<Rightarrow> False)
                         then toLocaleMonthYear rt dateAttempt
                         else toLocaleMonthYear rt (newDate (createdAt bill)))))"

text \<open>\<open>formatPeriod\<close> of BillHistory.tsx (part_001, lines 15 to 56), translated on its own.\<close>

definition formatPeriod :: "runtime \<Rightarrow> BillRecord \<Rightarrow> string" where
  "formatPeriod rt bill =
     (let text = dateOfPeriod bill @ '' '' @ orEmpty (dueDate bill);
          numericMatch = regexSearch numericDateHere (dateOfPeriod bill);
          numericKey =
            (case numericMatch of
               None \<Rightarrow> None
             | Some (g1, g2, g3) \<Rightarrow>
                 (let p2 = parseInt g2; p3 = parseInt g3
                  in if 1 \<le> p2 \<and> p2 \<le> 12
                     then Some (monthsAt (p2 - 1) @ '' '' @ numberToString (int p3))
                     else None))
      in case numericKey of
           Some key \<Rightarrow> key
         | None \<Rightarrow>
             (let yearMatch = regexSearch yearHere text;
                  year = (case yearMatch of
                            Some y \<Rightarrow> y
                          | None \<Rightarrow> fullYearString rt (newDate (createdAt bill)));
                  monthMatch = regexSearch monthHere text;
                  textKey =
                    (case monthMatch of
                       None \<Rightarrow> None
                     | Some m \<Rightarrow>
                         (let shortMonth = take 3 m;
                              normalized = toUpperCase (take 1 shortMonth)
                                             @ toLowerCase (drop 1 shortMonth)
                          in if normalized \<in> set months
                             then Some (normalized @ '' '' @ year) else None))
              in case textKey of
                   Some key \<Rightarrow> key
                 | None \<Rightarrow>
                     (let dateAttempt = dateParse rt (dateOfPeriod bill)
                      in if (case dateAttempt of
                               Some t \<Rightarrow> getFullYear rt t > 2000
                             | None \<Rightarrow> False)
                         then toLocaleMonthYear rt dateAttempt
                         else toLocaleMonthYear rt (newDate (createdAt bill)))))"

subsection \<open>The layers of the resolver, one by one\<close>

text \<open>\<open>`${bill.dateOfPeriod} ${bill.dueDate || ''}`\<close>\<close>

definition searchText :: "BillRecord \<Rightarrow> string" where
  "searchText bill = dateOfPeriod bill @ '' '' @ orEmpty (dueDate bill)"

text \<open>Layer 1: the numeric date pattern in \<open>dateOfPeriod\<close>.\<close>

definition numericLayer :: "string \<Rightarrow> string option" where
  "numericLayer period =
     (case regexSearch numericDateHere period of
        None \<Rightarrow> None
      | Some (g1, g2, g3) \<Rightarrow>
          (if 1 \<le> parseInt g2 \<and> parseInt g2 \<le> 12
           then Some (monthsAt (parseInt g2 - 1) @ '' '' @ numberToString (int (parseInt g3)))
           else None))"

text \<open>The year layer 2 uses: the first \<open>20[2-3]\d\<close> of the text, else the year of \<open>createdAt\<close>.\<close>

definition textYear :: "runtime \<Rightarrow> string \<Rightarrow> int \<Rightarrow> string" where
  "textYear rt text created =
     (case regexSearch yearHere text of
        Some y \<Rightarrow> y
      | None \<Rightarrow> fullYearString rt (newDate created))"

text \<open>Title case of a month match: \<open>charAt(0).toUpperCase() + slice(1).toLowerCase()\<close>.\<close>

definition titleCase :: "string \<Rightarrow> string" where
  "titleCase s = toUpperCase (take 1 s) @ toLowerCase (drop 1 s)"

text \<open>Layer 2: a month name in the search text.\<close>

definition textLayer :: "runtime \<Rightarrow> string \<Rightarrow> int \<Rightarrow> string option" where
  "textLayer rt text created =
     (case regexSearch monthHere text of
        None \<Rightarrow> None
      | Some m \<Rightarrow>
          (if titleCase (take 3 m) \<in> set months
           then Some (titleCase (take 3 m) @ '' '' @ textYear rt text created)
           else None))"

text \<open>Layers 3 and 4: the generic date parse of \<open>dateOfPeriod\<close>, then the upload date.\<close>

definition dateLayers :: "runtime \<Rightarrow> string \<Rightarrow> int \<Rightarrow> string" where
  "dateLayers rt period created =
     (case dateParse rt period of
        Some t \<Rightarrow>
          if getFullYear rt t > 2000 then toLocaleMonthYear rt (Some t)
          else toLocaleMonthYear rt (newDate created)
      | None \<Rightarrow> toLocaleMonthYear rt (newDate created))"

section \<open>The bill list (App.tsx, BillHistory.tsx)\<close>







subsection \<open>Objects used as dictionaries\<close>

text \<open>
  An object literal \<open>{}\<close> used as a dictionary is an association list of its own
  properties in insertion order. Reading a name that is not an own property finds the
  members inherited from \<open>Object.prototype\<close>.
\<close>

definition objectPrototypeNames :: "string list" where
  "objectPrototypeNames =
     [''constructor'', ''toString'', ''toLocaleString'', ''valueOf'', ''hasOwnProperty'',
      ''isPrototypeOf'', ''propertyIsEnumerable'', ''__proto__'', ''__defineGetter__'',
      ''__defineSetter__'', ''__lookupGetter__'', ''__lookupSetter__'']"

datatype 'v property = Own 'v | Inherited | Missing

definition getProperty :: "(string \<times> 'v) list \<Rightarrow> string \<Rightarrow> 'v property" where
  "getProperty obj k =
     (case map_of obj k of
        Some v \<Rightarrow> Own v
      | None \<Rightarrow> if k \<in> set objectPrototypeNames then Inherited else Missing)"

text \<open>
  \<open>TypeError\<close> is the exception of calling a method the value does not have;
  \<open>NonNumeric\<close> marks a bucket that \<open>+=\<close> turned into a string, after which the chart
  holds no number for it and the model stops.
\<close>

datatype failure = TypeError | NonNumeric

text \<open>
  An array index is the canonical decimal numeral of an integer below \<open>2^32 - 1\<close>.
  \<open>Object.entries\<close> lists the array-index keys first, in ascending order, then the other
  keys in insertion order.
\<close>

definition isArrayIndex :: "string \<Rightarrow> bool" where
  "isArrayIndex k =
     (k \<noteq> [] \<and> list_all isDigit k \<and> natToString (parseInt k) = k \<and> int (parseInt k) < 4294967295)"

definition objectEntries :: "(string \<times> 'v) list \<Rightarrow> (string \<times> 'v) list" where
  "objectEntries obj =
     sort_key (\<lambda>kv. parseInt (fst kv)) (filter (\<lambda>kv. isArrayIndex (fst kv)) obj)
     @ filter (\<lambda>kv. \<not> isArrayIndex (fst kv)) obj"

subsection \<open>Grouping by biller (part_001, lines 58 to 78)\<close>

record BillGroup =
  name :: string
  items :: "BillRecord list"
  total :: rat
  latest :: int

text \<open>\<open>bill.billName || 'Unknown'\<close>\<close>

definition billerLabel :: "BillRecord \<Rightarrow> string" where
  "billerLabel bill = (if billName bill = [] then ''Unknown'' else billName bill)"

text \<open>
  The body of \<open>bills.forEach\<close>: \<open>if (!groups[n]) groups[n] = []; groups[n].push(bill)\<close>.
  An inherited member is truthy and has no \<open>push\<close>.
\<close>

definition addToGroup ::
  "(string \<times> BillRecord list) list \<Rightarrow> BillRecord \<Rightarrow> failure + (string \<times> BillRecord list) list" where
  "addToGroup groups bill =
     (let n = billerLabel bill
      in case getProperty groups n of
           Missing \<Rightarrow> Inr (AList.update n ([] @ [bill]) groups)
         | Own its \<Rightarrow> Inr (AList.update n (its @ [bill]) groups)
         | Inherited \<Rightarrow> Inl TypeError)"

fun forEachBill ::
  "BillRecord list \<Rightarrow> (string \<times> BillRecord list) list
     \<Rightarrow> failure + (string \<times> BillRecord list) list" where
  "forEachBill [] groups = Inr groups"
| "forEachBill (bill # rest) groups =
     (case addToGroup groups bill of
        Inl e \<Rightarrow> Inl e
      | Inr groups' \<Rightarrow> forEachBill rest groups')"

text \<open>\<open>i.createdAt || 0\<close>\<close>

definition orZero :: "int \<Rightarrow> int" where
  "orZero x = (if x = 0 then 0 else x)"

text \<open>
  \<open>Math.max(...xs)\<close>. With no argument JavaScript gives \<open>-Infinity\<close>, which \<open>int\<close> does
  not have; the model writes 0 there. The groups that \<open>forEachBill\<close> builds are never
  empty (lemma \<open>forEachBill_nonempty\<close>), so \<open>groupedBills\<close> does not reach that case.
\<close>

definition mathMax :: "int list \<Rightarrow> int" where
  "mathMax xs = (case xs of [] \<Rightarrow> 0 | x # rest \<Rightarrow> fold max rest x)"

definition toGroup :: "string \<times> BillRecord list \<Rightarrow> BillGroup" where
  "toGroup e =
     \<lparr>name = fst e, items = snd e,
      total = foldl (\<lambda>sum item. sum + amount item) 0 (snd e),
      latest = mathMax (map (\<lambda>i. orZero (createdAt i)) (snd e))\<rparr>"

text \<open>
  \<open>sort((a, b) => b.latest - a.latest)\<close>: the comparator is the difference of two keys, so
  the stable sort orders by \<open>latest\<close>, largest first.
\<close>

definition groupedBills :: "BillRecord list \<Rightarrow> bool \<Rightarrow> failure + BillGroup list option" where
  "groupedBills bills groupByBiller =
     (if \<not> groupByBiller then Inr None
      else case forEachBill bills [] of
             Inl e \<Rightarrow> Inl e
           | Inr groups \<Rightarrow>
               Inr (Some (sort_key (\<lambda>g. - latest g) (map toGroup (objectEntries groups)))))"

section \<open>The report (ReportDashboard.tsx)\<close>

datatype GroupByType = Period | Biller

text \<open>\<open>/20\d{2}/\<close> anchored.\<close>

fun year20Here :: "string \<Rightarrow> string option" where
  "year20Here (a # b # c # d # r) =
     (if a = CHR ''2'' \<and> b = CHR ''0'' \<and> isDigit c \<and> isDigit d
      then Some [a, b, c, d] else None)"
| "year20Here _ = None"

definition getYearFromPeriod :: "string \<Rightarrow> string" where
  "getYearFromPeriod period =
     (case regexSearch year20Here period of Some y \<Rightarrow> y | None \<Rightarrow> ''Unknown'')"

text \<open>Step 1 of \<open>chartData\<close>: the records of the selected biller and year.\<close>

definition chartFiltered :: "BillRecord list \<Rightarrow> string \<Rightarrow> string \<Rightarrow> BillRecord list" where
  "chartFiltered bills selectedBiller selectedYear =
     filter (\<lambda>bill.
       (let billYear = getYearFromPeriod (dateOfPeriod bill);
            matchBiller = (selectedBiller = ''all'' \<or> billName bill = selectedBiller);
            matchYear = (selectedYear = ''all'' \<or> billYear = selectedYear)
        in matchBiller \<and> matchYear)) bills"

definition effectiveGroupBy :: "string \<Rightarrow> GroupByType \<Rightarrow> GroupByType" where
  "effectiveGroupBy selectedBiller groupBy = (if selectedBiller \<noteq> ''all'' then Period else groupBy)"

text \<open>\<open>s.split(' ')\<close>\<close>

fun splitSpaces :: "string \<Rightarrow> string list" where
  "splitSpaces [] = [[]]"
| "splitSpaces (c # cs) =
     (if c = CHR '' '' then [] # splitSpaces cs
      else (case splitSpaces cs of p # ps \<Rightarrow> (c # p) # ps | [] \<Rightarrow> [[c]]))"

text \<open>The bucket key of a record (lines 82 to 96).\<close>

definition bucketKey :: "GroupByType \<Rightarrow> string \<Rightarrow> BillRecord \<Rightarrow> string" where
  "bucketKey eff selectedYear bill =
     (if eff = Period then
        (if selectedYear \<noteq> ''all'' then
           (case splitSpaces (dateOfPeriod bill) of
              [] \<Rightarrow> dateOfPeriod bill
            | p # ps \<Rightarrow> if p = [] then dateOfPeriod bill else p)
         else if dateOfPeriod bill = [] then ''Unknown'' else dateOfPeriod bill)
      else if billName bill = [] then ''Unknown'' else billName bill)"

text \<open>
  \<open>if (!acc[key]) acc[key] = 0; acc[key] += bill.amount\<close>. An inherited member is truthy,
  and \<open>+=\<close> on it yields a string.
\<close>

definition addToBucket ::
  "(string \<times> rat) list \<Rightarrow> string \<Rightarrow> rat \<Rightarrow> failure + (string \<times> rat) list" where
  "addToBucket acc key amt =
     (case getProperty acc key of
        Missing \<Rightarrow> Inr (AList.update key (0 + amt) acc)
      | Own v \<Rightarrow> Inr (AList.update key ((if v = 0 then 0 else v) + amt) acc)
      | Inherited \<Rightarrow> Inl NonNumeric)"

fun reduceBuckets ::
  "GroupByType \<Rightarrow> string \<Rightarrow> BillRecord list \<Rightarrow> (string \<times> rat) list
     \<Rightarrow> failure + (string \<times> rat) list" where
  "reduceBuckets eff selectedYear [] acc = Inr acc"
| "reduceBuckets eff selectedYear (bill # rest) acc =
     (case addToBucket acc (bucketKey eff selectedYear bill) (amount bill) of
        Inl e \<Rightarrow> Inl e
      | Inr acc' \<Rightarrow> reduceBuckets eff selectedYear rest acc')"

text \<open>Steps 1 and 2 of \<open>chartData\<close>: the buckets before they are sorted.\<close>

definition chartGrouped ::
  "BillRecord list \<Rightarrow> string \<Rightarrow> string \<Rightarrow> GroupByType \<Rightarrow> failure + (string \<times> rat) list" where
  "chartGrouped bills selectedBiller selectedYear groupBy =
     reduceBuckets (effectiveGroupBy selectedBiller groupBy) selectedYear
       (chartFiltered bills selectedBiller selectedYear) []"

text \<open>
  The comparator of the cross-year period view (lines 114 to 119), on two bucket names;
  the difference of two time values is an integer.
\<close>

definition crossYearCompare :: "runtime \<Rightarrow> string \<Rightarrow> string \<Rightarrow> int" where
  "crossYearCompare rt a b =
     (let dateA = dateParse rt a; dateB = dateParse rt b
      in case dateA of
           None \<Rightarrow> 1
         | Some ta \<Rightarrow> (case dateB of None \<Rightarrow> - 1 | Some tb \<Rightarrow> ta - tb))"

section \<open>Status toggle and delete (App.tsx)\<close>

datatype ViewType = BillsView | UploadView | ReportView

record AppState =
  bills :: "BillRecord list"
  selectedBill :: "BillRecord option"
  activeTab :: ViewType
  isDbMissing :: bool

text \<open>
  \<open>handleToggleStatus\<close> (part_002, lines 212 to 236). \<open>storeFails\<close> says whether
  \<open>updateBillStatus\<close> throws when it is called. The handler reads \<open>bills\<close> and
  \<open>selectedBill\<close> of the state it was created in, also in the \<open>catch\<close> block.
\<close>

definition handleToggleStatus :: "AppState \<Rightarrow> bool \<Rightarrow> string \<Rightarrow> BillStatus \<Rightarrow> AppState" where
  "handleToggleStatus st storeFails i currentStatus =
     (let newStatus = (if currentStatus = Paid then Unpaid else Paid);
          updatedBills = map (\<lambda>b. if bill_id b = i then b\<lparr>status := newStatus\<rparr> else b) (bills st);
          st1 = st\<lparr>bills := updatedBills,
                   selectedBill :=
                     (case selectedBill st of
                        Some sb \<Rightarrow> if bill_id sb = i then Some (sb\<lparr>status := newStatus\<rparr>)
                                   else Some sb
                      | None \<Rightarrow> None)\<rparr>
      in if \<not> isDbMissing st \<and> storeFails then
           (let revertedBills =
                  map (\<lambda>b. if bill_id b = i then b\<lparr>status := currentStatus\<rparr> else b) (bills st)
            in st1\<lparr>bills := revertedBills,
                   selectedBill :=
                     (case selectedBill st of
                        Some sb \<Rightarrow> if bill_id sb = i then Some (sb\<lparr>status := currentStatus\<rparr>)
                                   else selectedBill st1
                      | None \<Rightarrow> selectedBill st1)\<rparr>)
         else st1)"

text \<open>
  \<open>handleDelete\<close> (part_002, lines 238 to 258). \<open>confirmed\<close> is the answer of
  \<open>window.confirm\<close>, \<open>storeFails\<close> says whether \<open>deleteBill\<close> throws when it is called.
\<close>

definition handleDelete :: "AppState \<Rightarrow> bool \<Rightarrow> bool \<Rightarrow> string \<Rightarrow> AppState" where
  "handleDelete st confirmed storeFails i =
     (if \<not> confirmed then st
      else
        (let prevBills = bills st;
             selected = (case selectedBill st of Some sb \<Rightarrow> bill_id sb = i | None \<Rightarrow> False);
             st1 = st\<lparr>bills := filter (\<lambda>b. bill_id b \<noteq> i) (bills st),
                      selectedBill := (if selected then None else selectedBill st),
                      activeTab := (if selected \<and> activeTab st = UploadView then BillsView
                                    else activeTab st)\<rparr>
         in if \<not> isDbMissing st \<and> storeFails then st1\<lparr>bills := prevBills\<rparr> else st1))"

section \<open>The resolver with its failures written out\<close>

text \<open>
  The operations of the resolver that can raise are the reads of an element of a match
  result, a \<open>TypeError\<close> when the result is \<open>null\<close>. \<open>getBillMonthYearChecked\<close> is the
  function of App.tsx once more, with each such read as a value that may be the error and
  each \<open>if (match)\<close> of the source as the test it is.
\<close>

definition matchElement :: "'m option \<Rightarrow> ('m \<Rightarrow> string) \<Rightarrow> failure + string" where
  "matchElement m sel = (case m of None \<Rightarrow> Inl TypeError | Some g \<Rightarrow> Inr (sel g))"

definition thenE :: "failure + 'a \<Rightarrow> ('a \<Rightarrow> failure + 'b) \<Rightarrow> failure + 'b" where
  "thenE r f = (case r of Inl e \<Rightarrow> Inl e | Inr v \<Rightarrow> f v)"

definition getBillMonthYearChecked :: "runtime \<Rightarrow> BillRecord \<Rightarrow> failure + string" where
  "getBillMonthYearChecked rt bill =
     (let text = dateOfPeriod bill @ '' '' @ orEmpty (dueDate bill);
          numericMatch = regexSearch numericDateHere (dateOfPeriod bill)
      in thenE
           (if numericMatch \<noteq> None
            then thenE (matchElement numericMatch (\<lambda>(g1, g2, g3). g2)) (\<lambda>s2.
                 thenE (matchElement numericMatch (\<lambda>(g1, g2, g3). g3)) (\<lambda>s3.
                   (let p2 = parseInt s2; p3 = parseInt s3
                    in if 1 \<le> p2 \<and> p2 \<le> 12
                       then Inr (Some (monthsAt (p2 - 1) @ '' '' @ numberToString (int p3)))
                       else Inr None)))
            else Inr None)
           (\<lambda>numericKey.
              case numericKey of
                Some key \<Rightarrow> Inr key
              | None \<Rightarrow>
                  (let yearMatch = regexSearch yearHere text
                   in thenE
                        (if yearMatch \<noteq> None then matchElement yearMatch (\<lambda>y. y)
                         else Inr (fullYearString rt (newDate (createdAt bill))))
                        (\<lambda>year.
                           (let monthMatch = regexSearch monthHere text
                            in thenE
                                 (if monthMatch \<noteq> None
                                  then thenE (matchElement monthMatch (\<lambda>m. m)) (\<lambda>m0.
                                         (let shortMonth = take 3 m0;
                                              normalized = toUpperCase (take 1 shortMonth)
                                                             @ toLowerCase (drop 1 shortMonth)
                                          in if normalized \<in> set months
                                             then Inr (Some (normalized @ '' '' @ year))
                                             else Inr None))
                                  else Inr None)
                                 (\<lambda>textKey.
                                    case textKey of
                                      Some key \<Rightarrow> Inr key
                                    | None \<Rightarrow>
                                        (let dateAttempt = dateParse rt (dateOfPeriod bill)
                                         in if (case dateAttempt of
                                                  Some t \<Rightarrow> getFullYear rt t > 2000
                                                | None \<Rightarrow> False)
                                            then Inr (toLocaleMonthYear rt dateAttempt)
                                            else Inr (toLocaleMonthYear rt
                                                        (newDate (createdAt bill))))))))))"

section \<open>Concrete runtimes and records\<close>

text \<open>
  A runtime with an English default locale (as it prints the years from 1 on), a fixed
  offset from UTC in minutes and the given parser for date strings.
\<close>

definition enFormat :: "nat \<Rightarrow> int \<Rightarrow> string" where
  "enFormat m y = monthsAt m @ '' '' @ numberToString y"

definition runtime_en :: "int \<Rightarrow> (string \<Rightarrow> int option) \<Rightarrow> runtime" where
  "runtime_en offsetMinutes parser =
     \<lparr>localTZA = (\<lambda>t. offsetMinutes * 60000), dateParse = parser, formatMonthYear = enFormat\<rparr>"

text \<open>
  A runtime with a German default locale; its short name of March has the letter a with
  diaeresis (code unit 228).
\<close>

definition deMonths :: "string list" where
  "deMonths = [''Jan.'', ''Feb.'', ''M'' @ [CHR 0xE4] @ ''rz'', ''Apr.'', ''Mai'', ''Juni'',
               ''Juli'', ''Aug.'', ''Sept.'', ''Okt.'', ''Nov.'', ''Dez.'']"

definition deFormat :: "nat \<Rightarrow> int \<Rightarrow> string" where
  "deFormat m y = (if m < length deMonths then deMonths ! m else ''undefined'')
                    @ '' '' @ numberToString y"

definition runtime_de :: "int \<Rightarrow> (string \<Rightarrow> int option) \<Rightarrow> runtime" where
  "runtime_de offsetMinutes parser =
     \<lparr>localTZA = (\<lambda>t. offsetMinutes * 60000), dateParse = parser, formatMonthYear = deFormat\<rparr>"

text \<open>A parser that knows the two labels \<open>October 2023\<close> and \<open>November 2023\<close> (UTC).\<close>

definition labelParser :: "string \<Rightarrow> int option" where
  "labelParser = map_of [(''October 2023'', 1696118400000), (''November 2023'', 1698796800000)]"

definition mkBill :: "string \<Rightarrow> string \<Rightarrow> string option \<Rightarrow> rat \<Rightarrow> int \<Rightarrow> BillRecord" where
  "mkBill biller period due amt created =
     \<lparr>billName = biller, dateOfPeriod = period, dueDate = due, amount = amt,
      currency = ''Rs.'', summary = None, bill_id = biller @ period, createdAt = created,
      status = Unpaid\<rparr>"

definition billOctober :: BillRecord where
  "billOctober = mkBill ''SLT'' ''October 2023'' None 10 1709596800000"

definition billNumeric :: BillRecord where
  "billNumeric = mkBill ''SLT'' ''15/10/2023'' None 10 1709596800000"

definition stateTwoBills :: AppState where
  "stateTwoBills =
     \<lparr>bills = [billNumeric, billOctober], selectedBill = Some billNumeric,
      activeTab = BillsView, isDbMissing = False\<rparr>"

section \<open>Words of the specification\<close>

text \<open>
  A word of ASCII letters occurs in a text without regard to case: the two are compared
  after ASCII lower-casing, under which no character outside ASCII becomes a letter of the
  word (so the \<open>i\<close> flag of the source's pattern compares).
\<close>

definition occursCI :: "string \<Rightarrow> string \<Rightarrow> bool" where
  "occursCI w s = sublist (toLowerCase w) (toLowerCase s)"

text \<open>The text contains a full or abbreviated English month name.\<close>

definition containsMonthName :: "string \<Rightarrow> bool" where
  "containsMonthName s = (\<exists>w \<in> set (months @ fullMonths). occursCI w s)"

definition billNoSignal :: BillRecord where
  "billNoSignal = mkBill ''SLT'' ''Electricity bill'' None 10 1709596800000"

definition billNoSignalNewYear :: BillRecord where
  "billNoSignalNewYear = mkBill ''SLT'' ''Electricity bill'' None 10 1704047400000"

definition billMonthOnly :: BillRecord where
  "billMonthOnly = mkBill ''SLT'' ''October'' None 10 1704047400000"

definition billOtherFields :: BillRecord where
  "billOtherFields = mkBill ''Water Board'' ''October 2023'' (Some []) 99 1709596800000"





definition billPaid :: BillRecord where
  "billPaid = (mkBill ''Water Board'' ''November 2023'' (Some ''15 Dec 2023'') 25 1709596800000)
     \<lparr>summary := Some ''Monthly water (SLT line rental excluded)'', status := Paid\<rparr>"




text \<open>
  A numeric date: one or two digits, a separator, one or two digits, a separator, four
  digits, the separators being \<open>/\<close> or \<open>-\<close>; and a string that begins with one.
\<close>

definition isDateSeparator :: "char \<Rightarrow> bool" where
  "isDateSeparator c = (c = CHR ''/'' \<or> c = CHR ''-'')"

definition numericDateForm :: "string \<Rightarrow> char \<Rightarrow> string \<Rightarrow> char \<Rightarrow> string \<Rightarrow> bool" where
  "numericDateForm d s1 m s2 y =
     ((length d = 1 \<or> length d = 2) \<and> list_all isDigit d \<and> isDateSeparator s1
      \<and> (length m = 1 \<or> length m = 2) \<and> list_all isDigit m \<and> isDateSeparator s2
      \<and> length y = 4 \<and> list_all isDigit y)"

definition startsNumericDate :: "string \<Rightarrow> bool" where
  "startsNumericDate s =
     (\<exists>d s1 m s2 y rest. numericDateForm d s1 m s2 y \<and> s = d @ s1 # m @ s2 # y @ rest)"

definition billRange :: BillRecord where
  "billRange = mkBill ''SLT'' ''From 01-02-2024 to 29-02-2024'' None 10 1709596800000"

definition billDotted :: BillRecord where
  "billDotted = mkBill ''SLT'' ''15.10.2023'' (Some ''20 Nov 2023'') 10 1709596800000"

text \<open>
  Positions in a text: where a full or abbreviated English month name stands (without
  regard to case), where a year from 2020 to 2039 stands as four digits, and the first
  position with a property.
\<close>

definition monthNameAt :: "string \<Rightarrow> nat \<Rightarrow> bool" where
  "monthNameAt s i =
     (\<exists>w \<in> set (months @ fullMonths).
        i + length w \<le> length s \<and> toLowerCase (take (length w) (drop i s)) = toLowerCase w)"

definition yearTokenAt :: "string \<Rightarrow> nat \<Rightarrow> bool" where
  "yearTokenAt s k =
     (k + 4 \<le> length s \<and> list_all isDigit (take 4 (drop k s))
      \<and> 2020 \<le> parseInt (take 4 (drop k s)) \<and> parseInt (take 4 (drop k s)) \<le> 2039)"

definition firstAt :: "(nat \<Rightarrow> bool) \<Rightarrow> nat \<Rightarrow> bool" where
  "firstAt P i = (P i \<and> (\<forall>j<i. \<not> P j))"

definition billSplitYear :: BillRecord where
  "billSplitYear = mkBill ''SLT'' ''Nov 20'' (Some ''23'') 10 1709596800000"

definition billBilling :: BillRecord where
  "billBilling = mkBill ''SLT'' ''Billing for October 2023'' (Some []) 10 1709596800000"

text \<open>
  The first word of a period string (the whole string when it starts with a space or is
  empty), and the sum of the amounts of the records with a given key.
\<close>

definition firstWordOrAll :: "string \<Rightarrow> string" where
  "firstWordOrAll d = (let w = takeWhile (\<lambda>c. c \<noteq> CHR '' '') d in if w = [] then d else w)"

definition bucketSum :: "(BillRecord \<Rightarrow> string) \<Rightarrow> BillRecord list \<Rightarrow> string \<Rightarrow> rat" where
  "bucketSum key bs k = sum_list (map amount (filter (\<lambda>b. key b = k) bs))"

definition billOctoberWater :: BillRecord where
  "billOctoberWater = mkBill ''Water Board'' ''October 2023'' None 5 1709683200000"

definition billNextYear :: BillRecord where
  "billNextYear = mkBill ''SLT'' ''October 2024'' None 99 1730419200000"

text \<open>The records of the grouping example, and a biller named \<open>constructor\<close>.\<close>

definition billA10 :: BillRecord where
  "billA10 = mkBill ''A'' ''October 2023'' None 10 1000"

definition billA5 :: BillRecord where
  "billA5 = mkBill ''A'' ''November 2023'' None 5 3000"

definition billB3 :: BillRecord where
  "billB3 = mkBill ''B'' ''October 2023'' None 3 2000"

definition billConstructor :: BillRecord where
  "billConstructor = mkBill ''constructor'' ''October 2023'' None 7 4000"

section \<open>The resolver and its layers\<close>

lemma getBillMonthYear_layers:
  "getBillMonthYear rt b =
     (case numericLayer (dateOfPeriod b) of
        Some key \<Rightarrow> key
      | None \<Rightarrow>
          (case textLayer rt (searchText b) (createdAt b) of
             Some key \<Rightarrow> key
           | None \<Rightarrow> dateLayers rt (dateOfPeriod b) (createdAt b)))"
  unfolding getBillMonthYear_def numericLayer_def textLayer_def dateLayers_def searchText_def
    textYear_def titleCase_def Let_def
  by (auto split: option.splits prod.splits)

section \<open>Store failures leave the collection as it was\<close>

lemma revert_map_iff:
  "map (\<lambda>b. if bill_id b = i then b\<lparr>status := cur\<rparr> else b) bs = bs
     \<longleftrightarrow> (\<forall>b \<in> set bs. bill_id b = i \<longrightarrow> status b = cur)"
proof (induction bs)
  case Nil
  then show ?case by simp
next
  case (Cons a bs)
  have "a\<lparr>status := cur\<rparr> = a \<longleftrightarrow> status a = cur"
    by (metis BillRecord.select_convs(3) BillRecord.surjective BillRecord.update_convs(3))
  with Cons show ?case by auto
qed

text \<open>
  C10, as amended. When the store is called (\<open>isDbMissing\<close> is false) and the call fails,
  the collection after the handler's \<open>catch\<close> block is the collection before the
  operation: for the delete always; for the toggle exactly when \<open>currentStatus\<close>, which
  the caller hands in and the handler writes back unchecked, is the status that the records
  of that id have in the collection.
\<close>

theorem C10_store_failure_restores_bills:
  assumes "\<not> isDbMissing st"
  shows "bills (handleDelete st True True i) = bills st
         \<and> (bills (handleToggleStatus st True i currentStatus) = bills st
              \<longleftrightarrow> (\<forall>b \<in> set (bills st). bill_id b = i \<longrightarrow> status b = currentStatus))"
proof
  show "bills (handleDelete st True True i) = bills st"
    using assms by (simp add: handleDelete_def Let_def)
next
  have "bills (handleToggleStatus st True i currentStatus)
          = map (\<lambda>b. if bill_id b = i then b\<lparr>status := currentStatus\<rparr> else b) (bills st)"
    using assms by (simp add: handleToggleStatus_def Let_def)
  then show "bills (handleToggleStatus st True i currentStatus) = bills st
              \<longleftrightarrow> (\<forall>b \<in> set (bills st). bill_id b = i \<longrightarrow> status b = currentStatus)"
    by (simp only: revert_map_iff)
qed

theorem C10_store_failure_witness:
  "bills (handleToggleStatus stateTwoBills True (bill_id billNumeric) Unpaid) = bills stateTwoBills
   \<and> bills (handleDelete stateTwoBills True True (bill_id billNumeric)) = bills stateTwoBills
   \<and> bills (handleToggleStatus stateTwoBills False (bill_id billNumeric) Unpaid)
       \<noteq> bills stateTwoBills
   \<and> bills (handleDelete stateTwoBills True False (bill_id billNumeric)) \<noteq> bills stateTwoBills"
proof -
  have 1: "\<not> isDbMissing stateTwoBills" by (simp add: stateTwoBills_def)
  have 2: "\<forall>b \<in> set (bills stateTwoBills). bill_id b = bill_id billNumeric \<longrightarrow> status b = Unpaid"
    by (simp add: stateTwoBills_def billNumeric_def billOctober_def mkBill_def)
  have 3: "bills (handleToggleStatus stateTwoBills False (bill_id billNumeric) Unpaid)
       \<noteq> bills stateTwoBills"
    "bills (handleDelete stateTwoBills True False (bill_id billNumeric)) \<noteq> bills stateTwoBills"
    by (simp_all add: stateTwoBills_def billNumeric_def billOctober_def mkBill_def
        handleToggleStatus_def handleDelete_def Let_def)
  from C10_store_failure_restores_bills [OF 1, of "bill_id billNumeric" Unpaid] 2 3
  show ?thesis by simp
qed

text \<open>
  The claim as stated fails when the caller's \<open>currentStatus\<close> is not the stored status:
  a failed toggle of an unpaid record, called with \<open>paid\<close>, leaves the record paid.
\<close>

theorem C10_counterexample:
  "bills (handleToggleStatus stateTwoBills True (bill_id billNumeric) Paid) \<noteq> bills stateTwoBills"
  by (simp add: stateTwoBills_def billNumeric_def billOctober_def mkBill_def
      handleToggleStatus_def Let_def)

section \<open>Searching and case mapping\<close>

lemma regexSearch_first:
  "i \<le> length s \<Longrightarrow> here (drop i s) = Some m \<Longrightarrow> (\<forall>j<i. here (drop j s) = None)
     \<Longrightarrow> regexSearch here s = Some m"
proof (induction s arbitrary: i)
  case Nil
  then show ?case by simp
next
  case (Cons c cs)
  show ?case
  proof (cases i)
    case 0
    with Cons.prems show ?thesis by simp
  next
    case (Suc k)
    with Cons.prems have h0: "here (c # cs) = None" by (metis drop0 zero_less_Suc)
    have "regexSearch here cs = Some m"
    proof (rule Cons.IH [of k])
      show "k \<le> length cs" using Cons.prems Suc by simp
      show "here (drop k cs) = Some m" using Cons.prems Suc by simp
      show "\<forall>j<k. here (drop j cs) = None"
      proof (intro allI impI)
        fix j assume "j < k"
        then have "Suc j < i" using Suc by simp
        then have "here (drop (Suc j) (c # cs)) = None" using Cons.prems(3) by blast
        then show "here (drop j cs) = None" by simp
      qed
    qed
    with h0 show ?thesis by simp
  qed
qed

lemma regexSearch_Some:
  "regexSearch here s = Some m \<Longrightarrow>
     \<exists>i \<le> length s. here (drop i s) = Some m \<and> (\<forall>j<i. here (drop j s) = None)"
proof (induction s)
  case Nil
  then show ?case by simp
next
  case (Cons c cs)
  show ?case
  proof (cases "here (c # cs)")
    case (Some m')
    with Cons.prems have "m' = m" by simp
    with Some have "here (drop 0 (c # cs)) = Some m \<and> (\<forall>j<0. here (drop j (c # cs)) = None)" by simp
    then show ?thesis by blast
  next
    case None
    with Cons.prems have "regexSearch here cs = Some m" by simp
    from Cons.IH [OF this] obtain i where i: "i \<le> length cs" "here (drop i cs) = Some m"
      "\<forall>j<i. here (drop j cs) = None" by blast
    have "\<forall>j<Suc i. here (drop j (c # cs)) = None"
    proof (intro allI impI)
      fix j assume "j < Suc i"
      then show "here (drop j (c # cs)) = None"
        using None i(3) by (cases j) auto
    qed
    with i(1,2) have "Suc i \<le> length (c # cs) \<and> here (drop (Suc i) (c # cs)) = Some m
        \<and> (\<forall>j<Suc i. here (drop j (c # cs)) = None)" by simp
    then show ?thesis by blast
  qed
qed

lemma regexSearch_None_iff:
  "regexSearch here s = None \<longleftrightarrow> (\<forall>i \<le> length s. here (drop i s) = None)"
proof (induction s)
  case Nil
  then show ?case by simp
next
  case (Cons c cs)
  show ?case
  proof
    assume a: "regexSearch here (c # cs) = None"
    then have h: "here (c # cs) = None" and r: "regexSearch here cs = None"
      by (auto split: option.splits)
    show "\<forall>i \<le> length (c # cs). here (drop i (c # cs)) = None"
    proof (intro allI impI)
      fix i assume "i \<le> length (c # cs)"
      then show "here (drop i (c # cs)) = None"
        using h r Cons.IH by (cases i) auto
    qed
  next
    assume a: "\<forall>i \<le> length (c # cs). here (drop i (c # cs)) = None"
    then have h: "here (c # cs) = None" by (metis drop0 le0)
    have "\<forall>i \<le> length cs. here (drop i cs) = None"
    proof (intro allI impI)
      fix i assume "i \<le> length cs"
      then have "here (drop (Suc i) (c # cs)) = None" using a by (metis Suc_le_mono length_Cons)
      then show "here (drop i cs) = None" by simp
    qed
    then have "regexSearch here cs = None" using Cons.IH by simp
    with h show "regexSearch here (c # cs) = None" by simp
  qed
qed

lemma toUpperChar_lower: "c \<in> set lowerLetters \<Longrightarrow> toUpperChar c \<in> set upperLetters"
  unfolding toUpperChar_def lowerLetters_def upperLetters_def by auto

lemma toUpperChar_other: "c \<notin> set lowerLetters \<Longrightarrow> toUpperChar c = c"
  unfolding toUpperChar_def lowerLetters_def upperLetters_def by auto

lemma toLower_toUpper: "toLowerChar (toUpperChar c) = toLowerChar c"
proof (cases "c \<in> set lowerLetters")
  case True
  then show ?thesis
    unfolding toUpperChar_def toLowerChar_def lowerLetters_def upperLetters_def by auto
next
  case False
  then show ?thesis by (simp add: toUpperChar_other)
qed

lemma toUpper_toLower: "toUpperChar (toLowerChar c) = toUpperChar c"
proof (cases "c \<in> set upperLetters")
  case True
  then show ?thesis
    unfolding toUpperChar_def toLowerChar_def lowerLetters_def upperLetters_def by auto
next
  case False
  then have "toLowerChar c = c"
    unfolding toLowerChar_def lowerLetters_def upperLetters_def by auto
  then show ?thesis by simp
qed

lemma toUpper_idem: "toUpperChar (toUpperChar c) = toUpperChar c"
proof (cases "c \<in> set lowerLetters")
  case True
  then show ?thesis
    unfolding toUpperChar_def toLowerChar_def lowerLetters_def upperLetters_def by auto
next
  case False
  then show ?thesis by (simp add: toUpperChar_other)
qed

lemma toLowerCase_toUpperCase: "toLowerCase (toUpperCase s) = toLowerCase s"
  by (simp add: toLowerCase_def toUpperCase_def toLower_toUpper)

lemma toUpperCase_toLowerCase: "toUpperCase (toLowerCase s) = toUpperCase s"
  by (simp add: toLowerCase_def toUpperCase_def toUpper_toLower)

lemma upper_eq_iff_lower_eq: "toUpperCase a = toUpperCase b \<longleftrightarrow> toLowerCase a = toLowerCase b"
  by (metis toLowerCase_toUpperCase toUpperCase_toLowerCase)

lemma titleCase_cong: "toUpperCase a = toUpperCase b \<Longrightarrow> titleCase a = titleCase b"
proof -
  assume h: "toUpperCase a = toUpperCase b"
  have u: "toUpperCase (take 1 a) = toUpperCase (take 1 b)"
    using h by (metis take_map toUpperCase_def)
  have "toUpperCase (drop 1 a) = toUpperCase (drop 1 b)"
    using h by (metis drop_map toUpperCase_def)
  then have "toLowerCase (drop 1 a) = toLowerCase (drop 1 b)"
    by (simp add: upper_eq_iff_lower_eq)
  with u show ?thesis by (simp add: titleCase_def)
qed

lemma titleCase_months: "w \<in> set months \<Longrightarrow> titleCase w = w"
  by (auto simp: months_def titleCase_def toUpperCase_def toLowerCase_def toUpperChar_def
      toLowerChar_def lowerLetters_def upperLetters_def)

lemma literalHereCI_take: "literalHereCI lit s \<Longrightarrow> literalHereCI (take n lit) s"
proof -
  assume h: "literalHereCI lit s"
  then have l: "length lit \<le> length s" and e: "toUpperCase (take (length lit) s) = toUpperCase lit"
    by (simp_all add: literalHereCI_def)
  have "take n (toUpperCase (take (length lit) s)) = take n (toUpperCase lit)" using e by simp
  then have "toUpperCase (take (min n (length lit)) s) = toUpperCase (take n lit)"
    by (simp add: toUpperCase_def take_map min.commute)
  with l show ?thesis by (simp add: literalHereCI_def min.commute)
qed

lemma fullMonths_abbrev: "w \<in> set fullMonths \<Longrightarrow> take 3 w \<in> set months"
  by (auto simp: months_def fullMonths_def)

lemma months_length: "w \<in> set months \<Longrightarrow> length w = 3"
  by (auto simp: months_def)

lemma filter_append_hd:
  "filter P xs \<noteq> [] \<Longrightarrow> filter P (xs @ ys) = hd (filter P xs) # tl (filter P xs) @ filter P ys"
  by (cases "filter P xs") auto

lemma monthHere_Some:
  assumes "monthHere s = Some m"
  shows "length m = 3 \<and> titleCase m \<in> set months \<and> m = take 3 s \<and> 3 \<le> length s"
proof -
  let ?P = "\<lambda>alt. literalHereCI alt s"
  from assms obtain alt rest where f: "filter ?P (months @ fullMonths) = alt # rest"
    and m: "m = take (length alt) s"
    by (auto simp: monthHere_def split: list.splits)
  have ne: "filter ?P months \<noteq> []"
  proof
    assume e: "filter ?P months = []"
    with f have "alt \<in> set (filter ?P fullMonths)" by (metis append_Nil filter_append list.set_intros(1))
    then have "alt \<in> set fullMonths" "?P alt" by auto
    then have "take 3 alt \<in> set months" "?P (take 3 alt)"
      by (auto intro: fullMonths_abbrev literalHereCI_take)
    then have "take 3 alt \<in> set (filter ?P months)" by simp
    with e show False by simp
  qed
  then have "alt = hd (filter ?P months)" using f filter_append_hd [OF ne, of fullMonths] by simp
  then have "alt \<in> set (filter ?P months)" using ne by (metis list.set_sel(1))
  then have a: "alt \<in> set months" and p: "?P alt" by auto
  have l: "length alt = 3" using a by (rule months_length)
  from p have "length alt \<le> length s \<and> toUpperCase (take (length alt) s) = toUpperCase alt"
    by (simp only: literalHereCI_def)
  then have lu: "3 \<le> length s \<and> toUpperCase (take 3 s) = toUpperCase alt"
    by (simp only: l)
  have len: "3 \<le> length s" using lu by (rule conjunct1)
  have up: "toUpperCase (take 3 s) = toUpperCase alt" using lu by (rule conjunct2)
  have "titleCase m = titleCase alt" using titleCase_cong [OF up] m l by simp
  then have "titleCase m \<in> set months" using a by (simp add: titleCase_months)
  with m l len show ?thesis by simp
qed

lemma occursCI_position:
  assumes "occursCI w s"
  shows "\<exists>i \<le> length s. literalHereCI w (drop i s)"
proof -
  from assms obtain ps ss where d: "toLowerCase s = ps @ toLowerCase w @ ss"
    by (auto simp: occursCI_def sublist_def)
  let ?i = "length ps"
  have ls: "length s = length ps + length w + length ss"
    using arg_cong [OF d, of length] by (simp add: toLowerCase_def)
  have "toLowerCase (take (length w) (drop ?i s)) = take (length w) (drop ?i (toLowerCase s))"
    by (simp add: toLowerCase_def take_map drop_map)
  also have "\<dots> = toLowerCase w" unfolding d by (simp add: toLowerCase_def)
  finally have "toUpperCase (take (length w) (drop ?i s)) = toUpperCase w"
    by (simp add: upper_eq_iff_lower_eq)
  moreover have "length w \<le> length (drop ?i s)" using ls by simp
  ultimately have "literalHereCI w (drop ?i s)" by (simp add: literalHereCI_def)
  moreover have "?i \<le> length s" using ls by simp
  ultimately show ?thesis by blast
qed

lemma containsMonthName_match:
  assumes "containsMonthName s"
  shows "\<exists>m. regexSearch monthHere s = Some m"
proof -
  from assms obtain w where w: "w \<in> set (months @ fullMonths)" and o: "occursCI w s"
    by (auto simp: containsMonthName_def)
  from occursCI_position [OF o] obtain i where i: "i \<le> length s" "literalHereCI w (drop i s)"
    by blast
  then have "w \<in> set (filter (\<lambda>alt. literalHereCI alt (drop i s)) (months @ fullMonths))"
    using w by simp
  then have "filter (\<lambda>alt. literalHereCI alt (drop i s)) (months @ fullMonths) \<noteq> []"
    by (metis empty_iff list.set(1))
  then have ne: "monthHere (drop i s) \<noteq> None"
    by (auto simp: monthHere_def split: list.splits)
  have "regexSearch monthHere s \<noteq> None"
  proof
    assume "regexSearch monthHere s = None"
    then have "\<forall>i \<le> length s. monthHere (drop i s) = None"
      by (simp only: regexSearch_None_iff)
    then have "monthHere (drop i s) = None" using i(1) by simp
    with ne show False by simp
  qed
  then show ?thesis by auto
qed

lemma match_containsMonthName:
  assumes "regexSearch monthHere s = Some m"
  shows "containsMonthName s"
proof -
  from regexSearch_Some [OF assms] obtain i where i: "i \<le> length s" "monthHere (drop i s) = Some m"
    by blast
  from i(2) obtain alt rest where
    f: "filter (\<lambda>alt. literalHereCI alt (drop i s)) (months @ fullMonths) = alt # rest"
    by (auto simp: monthHere_def split: list.splits)
  then have "alt \<in> set (filter (\<lambda>alt. literalHereCI alt (drop i s)) (months @ fullMonths))"
    by simp
  then have a: "alt \<in> set (months @ fullMonths)" and p: "literalHereCI alt (drop i s)" by auto
  from p have l: "length alt \<le> length (drop i s)"
    and e: "toLowerCase (take (length alt) (drop i s)) = toLowerCase alt"
    by (simp_all add: literalHereCI_def upper_eq_iff_lower_eq)
  have "toLowerCase s = toLowerCase (take i s @ take (length alt) (drop i s)
          @ drop (length alt) (drop i s))"
    by (simp only: append_take_drop_id)
  also have "\<dots> = toLowerCase (take i s) @ toLowerCase (take (length alt) (drop i s))
          @ toLowerCase (drop (length alt) (drop i s))"
    by (simp only: toLowerCase_def map_append)
  finally have "toLowerCase s = toLowerCase (take i s) @ toLowerCase alt
          @ toLowerCase (drop (length alt) (drop i s))"
    by (simp only: e)
  then have "occursCI alt s" by (auto simp: occursCI_def sublist_def)
  with a show ?thesis by (auto simp: containsMonthName_def)
qed

lemma monthHere_length: "monthHere s = Some m \<Longrightarrow> length m = 3"
  by (rule conjunct1 [OF monthHere_Some])

lemma monthHere_title: "monthHere s = Some m \<Longrightarrow> titleCase m \<in> set months"
  by (rule conjunct1 [OF conjunct2 [OF monthHere_Some]])

lemma textLayer_None_iff: "textLayer rt text c = None \<longleftrightarrow> regexSearch monthHere text = None"
proof (cases "regexSearch monthHere text")
  case None
  then show ?thesis by (simp add: textLayer_def)
next
  case (Some m)
  from regexSearch_Some [OF Some] obtain i where "monthHere (drop i text) = Some m" by blast
  then have "length m = 3" "titleCase m \<in> set months"
    by (rule monthHere_length, rule monthHere_title)
  with Some show ?thesis by (simp add: textLayer_def)
qed

lemma textLayer_Some:
  assumes "regexSearch monthHere text = Some m"
  shows "length m = 3 \<and> textLayer rt text c = Some (titleCase m @ '' '' @ textYear rt text c)"
proof -
  from regexSearch_Some [OF assms] obtain i where "monthHere (drop i text) = Some m" by blast
  then have "length m = 3" "titleCase m \<in> set months"
    by (rule monthHere_length, rule monthHere_title)
  with assms show ?thesis by (simp add: textLayer_def)
qed

lemma no_month_no_match: "\<not> containsMonthName s \<Longrightarrow> regexSearch monthHere s = None"
  using match_containsMonthName [of s] by (cases "regexSearch monthHere s") auto

section \<open>The resolver never raises, and falls back to the upload date\<close>

lemma fallback_to_upload_date:
  assumes "numericLayer (dateOfPeriod b) = None"
    and "\<not> containsMonthName (searchText b)"
    and "\<forall>t. dateParse rt (dateOfPeriod b) = Some t \<longrightarrow> getFullYear rt t \<le> 2000"
  shows "getBillMonthYear rt b = toLocaleMonthYear rt (newDate (createdAt b))
         \<and> (\<bar>createdAt b\<bar> \<le> 8640000000000000 \<longrightarrow>
              getBillMonthYear rt b
                = formatMonthYear rt (getMonth rt (createdAt b)) (getFullYear rt (createdAt b)))"
proof -
  have t: "textLayer rt (searchText b) (createdAt b) = None"
    using no_month_no_match [OF assms(2)] by (simp add: textLayer_None_iff)
  have d: "dateLayers rt (dateOfPeriod b) (createdAt b) = toLocaleMonthYear rt (newDate (createdAt b))"
  proof (cases "dateParse rt (dateOfPeriod b)")
    case None
    then show ?thesis by (simp add: dateLayers_def)
  next
    case (Some t)
    with assms(3) have "getFullYear rt t \<le> 2000" by simp
    with Some show ?thesis by (simp add: dateLayers_def)
  qed
  have k: "getBillMonthYear rt b = toLocaleMonthYear rt (newDate (createdAt b))"
    by (simp add: getBillMonthYear_layers assms(1) t d)
  then show ?thesis by (simp add: toLocaleMonthYear_def newDate_def)
qed

lemma getBillMonthYear_fields:
  assumes "dateOfPeriod b = dateOfPeriod b'" and "orEmpty (dueDate b) = orEmpty (dueDate b')"
    and "createdAt b = createdAt b'"
  shows "getBillMonthYear rt b = getBillMonthYear rt b'"
proof -
  have s: "searchText b = searchText b'" using assms by (simp add: searchText_def)
  show ?thesis unfolding getBillMonthYear_layers s assms(1) assms(3) by (rule refl)
qed

lemma getBillMonthYear_numeric:
  assumes "numericLayer (dateOfPeriod b) = Some k"
  shows "getBillMonthYear rt b = k"
  using assms by (simp add: getBillMonthYear_layers)

lemma getBillMonthYear_text:
  assumes "numericLayer (dateOfPeriod b) = None"
    and "regexSearch monthHere (searchText b) = Some m"
    and "regexSearch yearHere (searchText b) = Some y"
  shows "getBillMonthYear rt b = titleCase m @ '' '' @ y"
  using assms textLayer_Some [OF assms(2), of rt "createdAt b"]
  by (simp add: getBillMonthYear_layers textYear_def)

lemma getBillMonthYearChecked_total:
  "getBillMonthYearChecked rt b = Inr (getBillMonthYear rt b)"
  unfolding getBillMonthYearChecked_def getBillMonthYear_def Let_def thenE_def matchElement_def
  by (auto split: option.splits prod.splits)

lemma div_between:
  fixes x :: int
  assumes "q * n \<le> x" and "x < q * n + n" and "0 < n"
  shows "x div n = q"
proof -
  have "x = n * q + (x - q * n)" by (simp add: mult.commute)
  moreover have "0 \<le> x - q * n" using assms(1) by simp
  moreover have "x - q * n < n" using assms(2) by simp
  ultimately show ?thesis by (metis int_div_pos_eq)
qed

lemma civilFromDays_march_2024:
  assumes "19783 \<le> d" and "d \<le> 19813"
  shows "civilFromDays d = (2024, 2)"
proof -
  let ?z = "d + 719468"
  have era: "?z div 146097 = 5" using assms by (intro div_between) simp_all
  let ?doe = "?z - 5 * 146097"
  have b: "8766 \<le> ?doe" "?doe \<le> 8796" using assms by simp_all
  have d1: "?doe div 1460 = 6" using b by (intro div_between) simp_all
  have d2: "?doe div 36524 = 0" using b by (intro div_between) simp_all
  have d3: "?doe div 146096 = 0" using b by (intro div_between) simp_all
  have yoe: "(?doe - 6 + 0 - 0) div 365 = 24" using b by (intro div_between) simp_all
  let ?doy = "?doe - (365 * 24 + 24 div 4 - 24 div 100)"
  have doy: "0 \<le> ?doy" "?doy \<le> 30" using b by simp_all
  have mp: "(5 * ?doy + 2) div 153 = 0" using doy by (intro div_between) simp_all
  show ?thesis
    unfolding civilFromDays_def Let_def era d1 d2 d3 yoe mp by simp
qed

lemma local_march_2024:
  assumes "1709251200000 \<le> t + localTZA rt t" and "t + localTZA rt t < 1711929600000"
  shows "getMonth rt t = 2 \<and> getFullYear rt t = 2024"
proof -
  let ?l = "t + localTZA rt t"
  have "(1709251200000 :: int) div 86400000 \<le> ?l div 86400000"
    using assms(1) by (intro zdiv_mono1) simp_all
  then have lo: "19783 \<le> ?l div 86400000" by simp
  have "?l \<le> 1711929599999" using assms(2) by simp
  then have "?l div 86400000 \<le> (1711929599999 :: int) div 86400000"
    by (intro zdiv_mono1) simp_all
  then have hi: "?l div 86400000 \<le> 19813" by simp
  from civilFromDays_march_2024 [OF lo hi] show ?thesis
    by (simp add: getMonth_def getFullYear_def localDay_def)
qed

text \<open>
  C4, as amended. The resolver never raises: every read of a match element stands behind
  the test of its match, so the checked resolver returns the key of the resolver for all
  strings and timestamps. When layer 1 gives no key, the search text holds no month name
  and the generic parse of \<open>dateOfPeriod\<close> fails or gives a year of 2000 or earlier, the
  key is \<open>toLocaleString\<close> of \<open>createdAt\<close>; for a valid \<open>createdAt\<close> whose local time
  lies in March 2024 it is what the runtime's default locale prints for March 2024, which
  is \<open>Mar 2024\<close> when the locale prints it so.
\<close>

theorem C4_total_and_fallback:
  "getBillMonthYearChecked rt b = Inr (getBillMonthYear rt b)
   \<and> (numericLayer (dateOfPeriod b) = None \<and> \<not> containsMonthName (searchText b)
        \<and> (\<forall>t. dateParse rt (dateOfPeriod b) = Some t \<longrightarrow> getFullYear rt t \<le> 2000)
      \<longrightarrow> getBillMonthYear rt b = toLocaleMonthYear rt (newDate (createdAt b))
          \<and> (\<bar>createdAt b\<bar> \<le> 8640000000000000
               \<and> 1709251200000 \<le> createdAt b + localTZA rt (createdAt b)
               \<and> createdAt b + localTZA rt (createdAt b) < 1711929600000
             \<longrightarrow> getBillMonthYear rt b = formatMonthYear rt 2 2024
                 \<and> (formatMonthYear rt 2 2024 = ''Mar 2024''
                      \<longrightarrow> getBillMonthYear rt b = ''Mar 2024'')))"
proof (intro conjI impI)
  show "getBillMonthYearChecked rt b = Inr (getBillMonthYear rt b)"
    by (rule getBillMonthYearChecked_total)
next
  assume h: "numericLayer (dateOfPeriod b) = None \<and> \<not> containsMonthName (searchText b)
        \<and> (\<forall>t. dateParse rt (dateOfPeriod b) = Some t \<longrightarrow> getFullYear rt t \<le> 2000)"
  from h have 1: "numericLayer (dateOfPeriod b) = None" and 2: "\<not> containsMonthName (searchText b)"
    and 3: "\<forall>t. dateParse rt (dateOfPeriod b) = Some t \<longrightarrow> getFullYear rt t \<le> 2000" by simp_all
  show k: "getBillMonthYear rt b = toLocaleMonthYear rt (newDate (createdAt b))"
    using fallback_to_upload_date [OF 1 2 3] by simp
  {
    assume v: "\<bar>createdAt b\<bar> \<le> 8640000000000000
               \<and> 1709251200000 \<le> createdAt b + localTZA rt (createdAt b)
               \<and> createdAt b + localTZA rt (createdAt b) < 1711929600000"
    from v local_march_2024 [of "createdAt b" rt]
    have "getMonth rt (createdAt b) = 2 \<and> getFullYear rt (createdAt b) = 2024" by simp
    with v k show f: "getBillMonthYear rt b = formatMonthYear rt 2 2024"
      by (simp add: toLocaleMonthYear_def newDate_def)
    assume "formatMonthYear rt 2 2024 = ''Mar 2024''"
    with f show "getBillMonthYear rt b = ''Mar 2024''" by simp
  }
qed

theorem C4_total_and_fallback_witness:
  "getBillMonthYearChecked (runtime_en 0 labelParser) billNoSignal = Inr ''Mar 2024''
   \<and> getBillMonthYear (runtime_en 330 labelParser) billNoSignal = ''Mar 2024''
   \<and> getBillMonthYear (runtime_en 0 labelParser) billNoSignalNewYear = ''Dec 2023''
   \<and> getBillMonthYear (runtime_en 330 labelParser) billNoSignalNewYear = ''Jan 2024''"
proof -
  have n1: "numericLayer (dateOfPeriod billNoSignalNewYear) = None" by code_simp
  have n2: "\<not> containsMonthName (searchText billNoSignalNewYear)" by code_simp
  have n3: "\<forall>t. dateParse (runtime_en z labelParser) (dateOfPeriod billNoSignalNewYear) = Some t
             \<longrightarrow> getFullYear (runtime_en z labelParser) t \<le> 2000" for z
    by (simp add: runtime_en_def labelParser_def billNoSignalNewYear_def mkBill_def)
  have nd: "toLocaleMonthYear (runtime_en 0 labelParser) (newDate (createdAt billNoSignalNewYear))
             = ''Dec 2023''"
    by code_simp
  have ne: "toLocaleMonthYear (runtime_en 330 labelParser) (newDate (createdAt billNoSignalNewYear))
             = ''Jan 2024''"
    by code_simp
  have f: "getBillMonthYear (runtime_en 0 labelParser) billNoSignalNewYear = ''Dec 2023''"
    using C4_total_and_fallback [of "runtime_en 0 labelParser" billNoSignalNewYear] n1 n2 n3 [of 0] nd
    by simp
  have g: "getBillMonthYear (runtime_en 330 labelParser) billNoSignalNewYear = ''Jan 2024''"
    using C4_total_and_fallback [of "runtime_en 330 labelParser" billNoSignalNewYear] n1 n2 n3 [of 330] ne
    by simp
  have 1: "numericLayer (dateOfPeriod billNoSignal) = None" by code_simp
  have 2: "\<not> containsMonthName (searchText billNoSignal)" by code_simp
  have 3: "\<forall>t. dateParse (runtime_en z labelParser) (dateOfPeriod billNoSignal) = Some t
             \<longrightarrow> getFullYear (runtime_en z labelParser) t \<le> 2000" for z
    by (simp add: runtime_en_def labelParser_def billNoSignal_def mkBill_def)
  have 4: "\<bar>createdAt billNoSignal\<bar> \<le> 8640000000000000
       \<and> 1709251200000 \<le> createdAt billNoSignal
             + localTZA (runtime_en z labelParser) (createdAt billNoSignal)
       \<and> createdAt billNoSignal + localTZA (runtime_en z labelParser) (createdAt billNoSignal)
             < 1711929600000" if "z = 0 \<or> z = 330" for z
    using that by (auto simp: runtime_en_def billNoSignal_def mkBill_def)
  have 5: "formatMonthYear (runtime_en z labelParser) 2 2024 = ''Mar 2024''" for z
  proof -
    have "numberToString 2024 = ''2024''" by code_simp
    then show ?thesis by (simp add: runtime_en_def enFormat_def monthsAt_def months_def)
  qed
  have a: "getBillMonthYear (runtime_en 0 labelParser) billNoSignal = ''Mar 2024''"
    using C4_total_and_fallback [of "runtime_en 0 labelParser" billNoSignal] 1 2 3 [of 0] 4 [of 0] 5 [of 0]
    by blast
  have b: "getBillMonthYear (runtime_en 330 labelParser) billNoSignal = ''Mar 2024''"
    using C4_total_and_fallback [of "runtime_en 330 labelParser" billNoSignal] 1 2 3 [of 330] 4 [of 330]
      5 [of 330]
    by blast
  have c: "getBillMonthYearChecked (runtime_en 0 labelParser) billNoSignal
             = Inr (getBillMonthYear (runtime_en 0 labelParser) billNoSignal)"
    using C4_total_and_fallback [of "runtime_en 0 labelParser" billNoSignal] by blast
  from a b c f g show ?thesis by simp
qed

text \<open>
  The claim as stated fails where the default locale is not English: the record without
  date signal created on 2024-03-05 has, in a German runtime, the key the locale prints
  for March 2024, which is not \<open>Mar 2024\<close>.
\<close>

theorem C4_counterexample:
  "getBillMonthYear (runtime_de 0 labelParser) billNoSignal = ''M'' @ [CHR 0xE4] @ ''rz 2024''
   \<and> getBillMonthYear (runtime_de 0 labelParser) billNoSignal \<noteq> ''Mar 2024''"
  by code_simp

section \<open>What the key depends on\<close>

text \<open>
  C9, as amended. In one runtime the key is a function of \<open>dateOfPeriod\<close>, \<open>dueDate\<close>
  (an absent one read as the empty string) and \<open>createdAt\<close> alone. It is the same in
  every runtime (time zone, locale, date parser) when layer 1 gives the key, or when the
  search text holds a month name and a year \<open>20[2-3]\d\<close>. Otherwise the key is built
  from the runtime's local year of \<open>createdAt\<close>, its date parser or its locale.
\<close>

theorem C9_key_depends_on:
  "(dateOfPeriod b = dateOfPeriod b' \<and> orEmpty (dueDate b) = orEmpty (dueDate b')
      \<and> createdAt b = createdAt b'
      \<longrightarrow> getBillMonthYear rt b = getBillMonthYear rt b')
   \<and> (numericLayer (dateOfPeriod b) \<noteq> None
        \<or> (containsMonthName (searchText b) \<and> regexSearch yearHere (searchText b) \<noteq> None)
      \<longrightarrow> getBillMonthYear rt b = getBillMonthYear rt' b)"
proof (intro conjI impI)
  assume "dateOfPeriod b = dateOfPeriod b' \<and> orEmpty (dueDate b) = orEmpty (dueDate b')
      \<and> createdAt b = createdAt b'"
  then show "getBillMonthYear rt b = getBillMonthYear rt b'"
    by (intro getBillMonthYear_fields) simp_all
next
  assume h: "numericLayer (dateOfPeriod b) \<noteq> None
        \<or> (containsMonthName (searchText b) \<and> regexSearch yearHere (searchText b) \<noteq> None)"
  show "getBillMonthYear rt b = getBillMonthYear rt' b"
  proof (cases "numericLayer (dateOfPeriod b)")
    case (Some k)
    then show ?thesis
      using getBillMonthYear_numeric [of b _ rt] getBillMonthYear_numeric [of b _ rt'] by simp
  next
    case None
    with h have c: "containsMonthName (searchText b)"
      and "regexSearch yearHere (searchText b) \<noteq> None" by simp_all
    then obtain y where y: "regexSearch yearHere (searchText b) = Some y" by auto
    from containsMonthName_match [OF c] obtain m
      where m: "regexSearch monthHere (searchText b) = Some m" by blast
    show ?thesis
      using getBillMonthYear_text [OF None m y, of rt] getBillMonthYear_text [OF None m y, of rt']
      by simp
  qed
qed

theorem C9_key_depends_on_witness:
  "getBillMonthYear (runtime_en 0 labelParser) billOctober
     = getBillMonthYear (runtime_en 0 labelParser) billOtherFields
   \<and> getBillMonthYear (runtime_en 0 labelParser) billOctober
     = getBillMonthYear (runtime_en 330 Map.empty) billOctober
   \<and> billOctober \<noteq> billOtherFields"
proof -
  have 1: "dateOfPeriod billOctober = dateOfPeriod billOtherFields
      \<and> orEmpty (dueDate billOctober) = orEmpty (dueDate billOtherFields)
      \<and> createdAt billOctober = createdAt billOtherFields"
    by (simp add: billOctober_def billOtherFields_def mkBill_def orEmpty_def)
  have 2: "containsMonthName (searchText billOctober)" by code_simp
  have 3: "regexSearch yearHere (searchText billOctober) \<noteq> None" by code_simp
  have 4: "billOctober \<noteq> billOtherFields"
    by (simp add: billOctober_def billOtherFields_def mkBill_def)
  show ?thesis
    using C9_key_depends_on [of billOctober billOtherFields "runtime_en 0 labelParser" "runtime_en 330 Map.empty"]
      1 2 3 4 by blast
qed

text \<open>
  The claim as stated fails: the same record, with a month name and no year in its text
  and created at 2023-12-31T18:30:00Z, has the key \<open>Oct 2023\<close> in a runtime on UTC and
  \<open>Oct 2024\<close> in a runtime five and a half hours ahead.
\<close>

theorem C9_counterexample:
  "getBillMonthYear (runtime_en 0 labelParser) billMonthOnly
     \<noteq> getBillMonthYear (runtime_en 330 labelParser) billMonthOnly"
  by code_simp

lemma C9_counterexample_values:
  "getBillMonthYear (runtime_en 0 labelParser) billMonthOnly = ''Oct 2023''
   \<and> getBillMonthYear (runtime_en 330 labelParser) billMonthOnly = ''Oct 2024''"
  by code_simp

section \<open>The sites that compute a period key\<close>

lemma bucketKey_cross_year:
  "bucketKey Period ''all'' b = (if dateOfPeriod b = [] then ''Unknown'' else dateOfPeriod b)"
  by (simp add: bucketKey_def)

text \<open>
  C1, as amended. \<open>formatPeriod\<close> (list rows) and \<open>getBillMonthYear\<close> (filter
  dropdown and filter match) give the same string for every record, in every runtime.
  The report does not call the resolver: its cross-year bucket key is the raw
  \<open>dateOfPeriod\<close>, or \<open>Unknown\<close> when that is empty.
\<close>

theorem C1_period_key_sites:
  "formatPeriod rt b = getBillMonthYear rt b
   \<and> bucketKey Period ''all'' b = (if dateOfPeriod b = [] then ''Unknown'' else dateOfPeriod b)"
  unfolding formatPeriod_def getBillMonthYear_def by (simp add: bucketKey_cross_year)

theorem C1_period_key_sites_witness:
  "formatPeriod (runtime_en 0 labelParser) billNumeric = ''Oct 2023''
   \<and> getBillMonthYear (runtime_en 0 labelParser) billNumeric = ''Oct 2023''
   \<and> bucketKey Period ''all'' billNumeric = ''15/10/2023''"
proof -
  have "getBillMonthYear (runtime_en 0 labelParser) billNumeric = ''Oct 2023''" by code_simp
  moreover have "dateOfPeriod billNumeric = ''15/10/2023''"
    by (simp add: billNumeric_def mkBill_def)
  ultimately show ?thesis
    using C1_period_key_sites [of "runtime_en 0 labelParser" billNumeric] by simp
qed

text \<open>
  The claim as stated fails for the report: a record whose period is \<open>October 2023\<close>,
  the form the extractor is asked for, has the canonical key \<open>Oct 2023\<close> and the
  bucket key \<open>October 2023\<close>.
\<close>

theorem C1_counterexample:
  "bucketKey Period ''all'' billOctober \<noteq> getBillMonthYear (runtime_en 0 labelParser) billOctober"
  by code_simp

section \<open>The list filter\<close>








section \<open>The comparator of the cross-year view\<close>

lemma crossYearCompare_both_unparseable:
  assumes "dateParse rt a = None" and "dateParse rt b = None"
  shows "crossYearCompare rt a b = 1 \<and> crossYearCompare rt b a = 1"
  using assms by (simp add: crossYearCompare_def)

lemma crossYearCompare_unparseable_last:
  assumes "dateParse rt a = Some ta" and "dateParse rt b = None"
  shows "crossYearCompare rt a b < 0 \<and> crossYearCompare rt b a > 0"
  using assms by (simp add: crossYearCompare_def)

lemma crossYearCompare_parsed:
  assumes "dateParse rt a = Some ta" and "dateParse rt b = Some tb"
  shows "crossYearCompare rt a b = ta - tb \<and> crossYearCompare rt b a = - crossYearCompare rt a b
         \<and> (crossYearCompare rt a b < 0 \<longleftrightarrow> ta < tb)"
  using assms by (simp add: crossYearCompare_def)

text \<open>
  C6. The comparator puts a label that parses before one that does not and orders two
  parsed labels by time (the two lemmas above). On two labels that both fail to parse it
  answers 1 in both directions, and 1 for a label against itself: each is ordered after
  the other, here for \<open>Unknown\<close> and \<open>N/A\<close>.
\<close>

theorem C6_unparseable_pair:
  "crossYearCompare (runtime_en 0 labelParser) ''Unknown'' ''N/A'' = 1
   \<and> crossYearCompare (runtime_en 0 labelParser) ''N/A'' ''Unknown'' = 1
   \<and> crossYearCompare (runtime_en 0 labelParser) ''Unknown'' ''Unknown'' = 1"
  by (simp add: crossYearCompare_def runtime_en_def labelParser_def)

section \<open>Layer 1: the numeric date\<close>

lemma separator_not_digit: "isDateSeparator c \<Longrightarrow> \<not> isDigit c"
  by (auto simp: isDateSeparator_def isDigit_def)

lemma digit_not_separator: "isDigit c \<Longrightarrow> c \<noteq> CHR ''/'' \<and> c \<noteq> CHR ''-''"
  by (auto simp: isDigit_def)

lemma digits12_sound:
  "(g, r) \<in> set (digits12 s) \<Longrightarrow> s = g @ r \<and> (length g = 1 \<or> length g = 2) \<and> list_all isDigit g"
  by (induction s rule: digits12.induct) (auto split: if_splits)

lemma dateSeparator_sound:
  "r' \<in> set (dateSeparator r) \<Longrightarrow> \<exists>c. r = c # r' \<and> isDateSeparator c"
  by (cases r) (auto simp: isDateSeparator_def split: if_splits)

lemma digits4_sound:
  "g \<in> set (digits4 r) \<Longrightarrow> \<exists>rest. r = g @ rest \<and> length g = 4 \<and> list_all isDigit g"
  by (induction r rule: digits4.induct) (auto split: if_splits)

lemma first_of_list:
  "(case xs of [] \<Rightarrow> None | m # _ \<Rightarrow> Some m) = Some x \<Longrightarrow> x \<in> set xs"
  by (cases xs) auto

lemma numericDateHere_sound:
  assumes "numericDateHere s = Some (g1, g2, g3)"
  shows "\<exists>s1 s2 rest. numericDateForm g1 s1 g2 s2 g3 \<and> s = g1 @ s1 # g2 @ s2 # g3 @ rest"
proof -
  let ?all = "concat (map (\<lambda>(g1, r1).
             concat (map (\<lambda>r2.
               concat (map (\<lambda>(g2, r3).
                 concat (map (\<lambda>r4.
                   map (\<lambda>g3. (g1, g2, g3)) (digits4 r4))
                 (dateSeparator r3)))
               (digits12 r2)))
             (dateSeparator r1)))
           (digits12 s))"
  from assms have "(g1, g2, g3) \<in> set ?all"
    unfolding numericDateHere_def by (rule first_of_list)
  then obtain r1 r2 r3 r4 where
    a: "(g1, r1) \<in> set (digits12 s)" and b: "r2 \<in> set (dateSeparator r1)"
    and c: "(g2, r3) \<in> set (digits12 r2)" and d: "r4 \<in> set (dateSeparator r3)"
    and e: "g3 \<in> set (digits4 r4)"
    by auto
  from digits12_sound [OF a] have a': "s = g1 @ r1" "length g1 = 1 \<or> length g1 = 2" "list_all isDigit g1"
    by simp_all
  from dateSeparator_sound [OF b] obtain s1 where b': "r1 = s1 # r2" "isDateSeparator s1" by blast
  from digits12_sound [OF c] have c': "r2 = g2 @ r3" "length g2 = 1 \<or> length g2 = 2" "list_all isDigit g2"
    by simp_all
  from dateSeparator_sound [OF d] obtain s2 where d': "r3 = s2 # r4" "isDateSeparator s2" by blast
  from digits4_sound [OF e] obtain rest where e': "r4 = g3 @ rest" "length g3 = 4" "list_all isDigit g3"
    by blast
  have "numericDateForm g1 s1 g2 s2 g3"
    using a' b' c' d' e' by (simp add: numericDateForm_def)
  moreover have "s = g1 @ s1 # g2 @ s2 # g3 @ rest"
    using a' b' c' d' e' by simp
  ultimately show ?thesis by blast
qed

lemma digits12_one:
  "isDigit a \<Longrightarrow> isDateSeparator c \<Longrightarrow> digits12 (a # c # r) = [([a], c # r)]"
  by (simp add: separator_not_digit)

lemma digits12_two:
  "isDigit a \<Longrightarrow> isDigit b \<Longrightarrow> digits12 (a # b # r) = [([a, b], r), ([a], b # r)]"
  by simp

lemma dateSeparator_yes: "isDateSeparator c \<Longrightarrow> dateSeparator (c # r) = [r]"
  by (simp add: isDateSeparator_def)

lemma dateSeparator_no: "isDigit c \<Longrightarrow> dateSeparator (c # r) = []"
  using digit_not_separator [of c] by simp

lemma digits4_yes:
  "length y = 4 \<Longrightarrow> list_all isDigit y \<Longrightarrow> digits4 (y @ rest) = [y]"
proof -
  assume l: "length y = 4" and d: "list_all isDigit y"
  from l obtain a b c e where y: "y = [a, b, c, e]"
    by (cases y; cases "tl y"; cases "tl (tl y)"; cases "tl (tl (tl y))") auto
  with d show ?thesis by simp
qed

lemma numericDateHere_complete:
  assumes "numericDateForm d s1 m s2 y"
  shows "numericDateHere (d @ s1 # m @ s2 # y @ rest) = Some (d, m, y)"
proof -
  from assms have ld: "length d = 1 \<or> length d = 2" and dd: "list_all isDigit d"
    and s1: "isDateSeparator s1" and lm: "length m = 1 \<or> length m = 2"
    and dm: "list_all isDigit m" and s2: "isDateSeparator s2"
    and ly: "length y = 4" and dy: "list_all isDigit y"
    by (simp_all add: numericDateForm_def)
  note y4 = digits4_yes [OF ly dy, of rest]
  have tailm: "concat (map (\<lambda>(g2, r3). concat (map (\<lambda>r4. map (\<lambda>g3. (g1, g2, g3)) (digits4 r4))
                 (dateSeparator r3))) (digits12 (m @ s2 # y @ rest)))
               = (g1, m, y) # (if length m = 2 then [] else [])" for g1 :: string
  proof -
    from lm show ?thesis
    proof
      assume "length m = 1"
      then obtain c where m: "m = [c]" by (cases m) auto
      with dm have c: "isDigit c" by simp
      show ?thesis using m c s2 y4
        by (simp add: digits12_one dateSeparator_yes del: digits12.simps dateSeparator.simps)
    next
      assume "length m = 2"
      then obtain c e where m: "m = [c, e]" by (cases m; cases "tl m") auto
      with dm have c: "isDigit c" "isDigit e" by simp_all
      show ?thesis using m c s2 y4
        by (simp add: digits12_two dateSeparator_yes dateSeparator_no
            del: digits12.simps dateSeparator.simps)
    qed
  qed
  from ld show ?thesis
  proof
    assume "length d = 1"
    then obtain a where d: "d = [a]" by (cases d) auto
    with dd have a: "isDigit a" by simp
    show ?thesis
      unfolding numericDateHere_def using d a s1
      by (simp add: digits12_one dateSeparator_yes tailm del: digits12.simps dateSeparator.simps)
  next
    assume "length d = 2"
    then obtain a b where d: "d = [a, b]" by (cases d; cases "tl d") auto
    with dd have a: "isDigit a" "isDigit b" by simp_all
    show ?thesis
      unfolding numericDateHere_def using d a s1
      by (simp add: digits12_two dateSeparator_yes dateSeparator_no tailm
          del: digits12.simps dateSeparator.simps)
  qed
qed

lemma startsNumericDate_iff: "startsNumericDate s \<longleftrightarrow> numericDateHere s \<noteq> None"
proof
  assume "startsNumericDate s"
  then show "numericDateHere s \<noteq> None"
    by (auto simp: startsNumericDate_def numericDateHere_complete)
next
  assume "numericDateHere s \<noteq> None"
  then obtain g1 g2 g3 where "numericDateHere s = Some (g1, g2, g3)" by auto
  from numericDateHere_sound [OF this] show "startsNumericDate s"
    unfolding startsNumericDate_def by blast
qed


lemma parseInt_snoc: "parseInt (ds @ [c]) = 10 * parseInt ds + digitVal c"
  by (simp add: parseInt_def)

lemma digitChar_digitVal: "isDigit c \<Longrightarrow> digitChar (digitVal c) = c"
  by (auto simp: isDigit_def digitChar_def digitVal_def)

lemma digitVal_less: "digitVal c < 10"
  by (auto simp: digitVal_def split: option.splits if_splits)

lemma digitChar_mod: "digitChar (10 * n + v) = digitChar v"
  by (simp add: digitChar_def)

lemma digitVal_zero: "isDigit c \<Longrightarrow> digitVal c = 0 \<Longrightarrow> c = CHR ''0''"
  by (auto simp: isDigit_def digitVal_def)

lemma natToString_parseInt:
  "ds \<noteq> [] \<Longrightarrow> list_all isDigit ds \<Longrightarrow> hd ds \<noteq> CHR ''0'' \<Longrightarrow>
     natToString (parseInt ds) = ds \<and> 0 < parseInt ds"
proof (induction ds rule: rev_induct)
  case Nil
  then show ?case by simp
next
  case (snoc c ds)
  from snoc.prems have c: "isDigit c" and dds: "list_all isDigit ds" by simp_all
  show ?case
  proof (cases "ds = []")
    case True
    with snoc.prems c have "c \<noteq> CHR ''0''" by simp
    then have pos: "0 < digitVal c" using digitVal_zero [OF c] by auto
    have "natToString (digitVal c) = [c]"
      using digitVal_less [of c] by (simp add: natToString.simps digitChar_digitVal [OF c])
    with True pos show ?thesis by (simp add: parseInt_def)
  next
    case False
    with snoc.prems have "hd ds \<noteq> CHR ''0''" by simp
    from snoc.IH [OF False dds this] have ih: "natToString (parseInt ds) = ds" "0 < parseInt ds"
      by simp_all
    let ?n = "10 * parseInt ds + digitVal c"
    have ge: "\<not> ?n < 10" using ih(2) by simp
    have dv: "?n div 10 = parseInt ds" using digitVal_less [of c] by simp
    have "natToString ?n = natToString (?n div 10) @ [digitChar ?n]"
      using ge by (subst natToString.simps) simp
    also have "\<dots> = ds @ [c]"
      by (simp only: dv ih(1) digitChar_mod digitChar_digitVal [OF c])
    finally show ?thesis using ih(2) by (simp add: parseInt_snoc)
  qed
qed

lemma months_count: "length months = 12"
  by (simp add: months_def)

lemma monthsAt_months: "i < 12 \<Longrightarrow> monthsAt i = months ! i \<and> monthsAt i \<in> set months"
  by (simp add: monthsAt_def months_count)

text \<open>
  C2, as amended. When the leftmost numeric date of \<open>dateOfPeriod\<close> (separators \<open>/\<close>
  or \<open>-\<close>; no numeric date begins before it) has a middle group \<open>m\<close> between 1 and
  12, the key is the \<open>m\<close>-th month abbreviation, a space and the decimal numeral of the
  year group, which is the group itself when it has no leading zero; whatever the
  runtime, \<open>dueDate\<close> and \<open>createdAt\<close> are.
\<close>

theorem C2_numeric_date:
  assumes "numericDateForm d s1 m s2 y"
    and "dateOfPeriod b = pre @ d @ s1 # m @ s2 # y @ post"
    and "\<forall>j < length pre. \<not> startsNumericDate (drop j (dateOfPeriod b))"
    and "1 \<le> parseInt m" and "parseInt m \<le> 12"
  shows "getBillMonthYear rt b = months ! (parseInt m - 1) @ '' '' @ natToString (parseInt y)
         \<and> (hd y \<noteq> CHR ''0'' \<longrightarrow> getBillMonthYear rt b = months ! (parseInt m - 1) @ '' '' @ y)"
proof -
  let ?s = "dateOfPeriod b"
  have here: "numericDateHere (drop (length pre) ?s) = Some (d, m, y)"
    using numericDateHere_complete [OF assms(1), of post] by (simp add: assms(2))
  have before: "\<forall>j < length pre. numericDateHere (drop j ?s) = None"
  proof (intro allI impI)
    fix j assume "j < length pre"
    with assms(3) have "\<not> startsNumericDate (drop j ?s)" by blast
    then show "numericDateHere (drop j ?s) = None"
      by (simp only: startsNumericDate_iff not_not)
  qed
  have "length pre \<le> length ?s" by (simp add: assms(2))
  from regexSearch_first [OF this here before]
  have found: "regexSearch numericDateHere ?s = Some (d, m, y)" .
  have "parseInt m - 1 < 12" using assms(5) by simp
  then have mm: "monthsAt (parseInt m - 1) = months ! (parseInt m - 1)"
    by (simp add: monthsAt_months)
  have nl: "numericLayer ?s = Some (months ! (parseInt m - 1) @ '' '' @ natToString (parseInt y))"
    using found assms(4,5) mm by (simp add: numericLayer_def numberToString_def)
  have k: "getBillMonthYear rt b = months ! (parseInt m - 1) @ '' '' @ natToString (parseInt y)"
    by (simp add: getBillMonthYear_layers nl)
  have "hd y \<noteq> CHR ''0'' \<longrightarrow> natToString (parseInt y) = y"
  proof
    assume h: "hd y \<noteq> CHR ''0''"
    from assms(1) have "length y = 4" "list_all isDigit y" by (simp_all add: numericDateForm_def)
    then have "y \<noteq> []" by auto
    from natToString_parseInt [OF this \<open>list_all isDigit y\<close> h]
    show "natToString (parseInt y) = y" by simp
  qed
  with k show ?thesis by simp
qed

theorem C2_numeric_date_witness:
  "getBillMonthYear (runtime_en 0 labelParser) billNumeric = ''Oct 2023''
   \<and> getBillMonthYear (runtime_en 0 labelParser) billRange = ''Feb 2024''"
proof -
  let ?rt = "runtime_en 0 labelParser"
  have f1: "numericDateForm ''15'' (CHR ''/'') ''10'' (CHR ''/'') ''2023''"
    by (simp add: numericDateForm_def isDigit_def isDateSeparator_def)
  have p1: "dateOfPeriod billNumeric = [] @ ''15'' @ CHR ''/'' # ''10'' @ CHR ''/'' # ''2023'' @ []"
    by (simp add: billNumeric_def mkBill_def)
  have m1: "parseInt ''10'' = 10" "parseInt ''2023'' = 2023"
    by (simp_all add: parseInt_def digitVal_def)
  have n1: "natToString 2023 = ''2023''" by code_simp
  have r1: "getBillMonthYear ?rt billNumeric = ''Oct 2023''"
    using C2_numeric_date [OF f1 p1, of ?rt] m1 n1 by (simp add: months_def)
  have f2: "numericDateForm ''01'' (CHR ''-'') ''02'' (CHR ''-'') ''2024''"
    by (simp add: numericDateForm_def isDigit_def isDateSeparator_def)
  have p2: "dateOfPeriod billRange
      = ''From '' @ ''01'' @ CHR ''-'' # ''02'' @ CHR ''-'' # ''2024'' @ '' to 29-02-2024''"
    by (simp add: billRange_def mkBill_def)
  have b2: "\<forall>j < length ''From ''. \<not> startsNumericDate (drop j (dateOfPeriod billRange))"
  proof (intro allI impI)
    fix j :: nat assume "j < length ''From ''"
    then consider "j = 0" | "j = 1" | "j = 2" | "j = 3" | "j = 4" by force
    then have "numericDateHere (drop j (dateOfPeriod billRange)) = None"
      by cases (simp_all add: billRange_def mkBill_def numericDateHere_def isDigit_def)
    then show "\<not> startsNumericDate (drop j (dateOfPeriod billRange))"
      by (simp add: startsNumericDate_iff)
  qed
  have m2: "parseInt ''02'' = 2" "parseInt ''2024'' = 2024"
    by (simp_all add: parseInt_def digitVal_def)
  have n2: "natToString 2024 = ''2024''" by code_simp
  have r2: "getBillMonthYear ?rt billRange = ''Feb 2024''"
    using C2_numeric_date [OF f2 p2 b2, of ?rt] m2 n2 by (simp add: months_def)
  from r1 r2 show ?thesis by simp
qed

text \<open>
  The claim as stated fails for the separator \<open>.\<close>, which the pattern of the source
  does not accept: for the period \<open>15.10.2023\<close> with due date \<open>20 Nov 2023\<close> layer 1
  gives no key and layer 2 answers \<open>Nov 2023\<close>.
\<close>

theorem C2_counterexample:
  "getBillMonthYear (runtime_en 0 labelParser) billDotted = ''Nov 2023''
   \<and> getBillMonthYear (runtime_en 0 labelParser) billDotted \<noteq> ''Oct 2023''"
  by code_simp

section \<open>The buckets of the single-year period view\<close>

lemma splitSpaces_head: "\<exists>ps. splitSpaces s = takeWhile (\<lambda>c. c \<noteq> CHR '' '') s # ps"
  by (induction s) (auto split: list.splits)

lemma bucketKey_single_year:
  assumes "selectedYear \<noteq> ''all''"
  shows "bucketKey Period selectedYear b = firstWordOrAll (dateOfPeriod b)"
proof -
  from splitSpaces_head [of "dateOfPeriod b"] obtain ps
    where "splitSpaces (dateOfPeriod b) = takeWhile (\<lambda>c. c \<noteq> CHR '' '') (dateOfPeriod b) # ps"
    by blast
  then show ?thesis using assms by (simp add: bucketKey_def firstWordOrAll_def Let_def)
qed

lemma addToBucket_ok:
  assumes "k \<notin> set objectPrototypeNames"
  shows "addToBucket acc k amt
           = Inr (AList.update k ((case map_of acc k of Some v \<Rightarrow> v | None \<Rightarrow> 0) + amt) acc)"
  using assms by (simp add: addToBucket_def getProperty_def split: option.splits)

lemma addToBucket_inherited:
  assumes "k \<in> set objectPrototypeNames" and "map_of acc k = None"
  shows "addToBucket acc k amt = Inl NonNumeric"
  using assms by (simp add: addToBucket_def getProperty_def)

lemma reduceBuckets_sums:
  assumes "\<forall>b \<in> set bs. bucketKey eff y b \<notin> set objectPrototypeNames"
    and "distinct (map fst acc)"
  shows "\<exists>acc'. reduceBuckets eff y bs acc = Inr acc' \<and> distinct (map fst acc')
           \<and> (\<forall>k. map_of acc' k =
                 (if k \<in> bucketKey eff y ` set bs \<or> map_of acc k \<noteq> None
                  then Some ((case map_of acc k of Some v \<Rightarrow> v | None \<Rightarrow> 0)
                             + bucketSum (bucketKey eff y) bs k)
                  else None))"
  using assms
proof (induction bs arbitrary: acc)
  case Nil
  have "map_of acc k = (if k \<in> bucketKey eff y ` set [] \<or> map_of acc k \<noteq> None
                  then Some ((case map_of acc k of Some v \<Rightarrow> v | None \<Rightarrow> 0)
                             + bucketSum (bucketKey eff y) [] k)
                  else None)" for k
    by (cases "map_of acc k") (simp_all add: bucketSum_def)
  then show ?case using Nil by simp
next
  case (Cons b bs)
  let ?k0 = "bucketKey eff y b"
  let ?old = "case map_of acc ?k0 of Some v \<Rightarrow> v | None \<Rightarrow> 0"
  let ?acc1 = "AList.update ?k0 (?old + amount b) acc"
  from Cons.prems have k0: "?k0 \<notin> set objectPrototypeNames"
    and rest: "\<forall>b \<in> set bs. bucketKey eff y b \<notin> set objectPrototypeNames" by simp_all
  have step: "addToBucket acc ?k0 (amount b) = Inr ?acc1" using k0 by (rule addToBucket_ok)
  have d1: "distinct (map fst ?acc1)" using Cons.prems(2) by (rule distinct_update)
  from Cons.IH [OF rest d1] obtain acc' where
    r: "reduceBuckets eff y bs ?acc1 = Inr acc'" and d: "distinct (map fst acc')"
    and m: "\<forall>k. map_of acc' k =
                 (if k \<in> bucketKey eff y ` set bs \<or> map_of ?acc1 k \<noteq> None
                  then Some ((case map_of ?acc1 k of Some v \<Rightarrow> v | None \<Rightarrow> 0)
                             + bucketSum (bucketKey eff y) bs k)
                  else None)"
    by blast
  have full: "reduceBuckets eff y (b # bs) acc = Inr acc'" using step r by simp
  have "\<forall>k. map_of acc' k =
                 (if k \<in> bucketKey eff y ` set (b # bs) \<or> map_of acc k \<noteq> None
                  then Some ((case map_of acc k of Some v \<Rightarrow> v | None \<Rightarrow> 0)
                             + bucketSum (bucketKey eff y) (b # bs) k)
                  else None)"
  proof
    fix k
    show "map_of acc' k =
                 (if k \<in> bucketKey eff y ` set (b # bs) \<or> map_of acc k \<noteq> None
                  then Some ((case map_of acc k of Some v \<Rightarrow> v | None \<Rightarrow> 0)
                             + bucketSum (bucketKey eff y) (b # bs) k)
                  else None)"
    proof (cases "k = ?k0")
      case True
      then show ?thesis
        using m [rule_format, of k] by (simp add: update_conv' bucketSum_def)
    next
      case False
      then show ?thesis
        using m [rule_format, of k] by (auto simp: update_conv' bucketSum_def)
    qed
  qed
  with full d show ?case by blast
qed

text \<open>
  C5, as amended. In the period view with a year selected, the bucket key of a record is
  the first word of its raw \<open>dateOfPeriod\<close> (the whole string when that word is empty);
  the report does not derive it from the canonical key. When no key of a filtered record is
  a member name of \<open>Object.prototype\<close>, the buckets are exactly the keys of the filtered
  records, each once, and the value of a bucket is the sum of the amounts of the filtered
  records with that key. Amounts are exact rationals here; the rounding of floating point
  is outside the model.
\<close>

theorem C5_single_year_buckets:
  assumes "selectedYear \<noteq> ''all''"
    and "effectiveGroupBy selectedBiller groupBy = Period"
    and "\<forall>b \<in> set (chartFiltered bs selectedBiller selectedYear).
           firstWordOrAll (dateOfPeriod b) \<notin> set objectPrototypeNames"
  shows "(\<forall>b. bucketKey Period selectedYear b = firstWordOrAll (dateOfPeriod b))
         \<and> (\<exists>acc. chartGrouped bs selectedBiller selectedYear groupBy = Inr acc
                \<and> distinct (map fst acc)
                \<and> (\<forall>k. map_of acc k =
                      (if k \<in> bucketKey Period selectedYear ` set (chartFiltered bs selectedBiller selectedYear)
                       then Some (bucketSum (bucketKey Period selectedYear)
                                    (chartFiltered bs selectedBiller selectedYear) k)
                       else None)))"
proof
  show "\<forall>b. bucketKey Period selectedYear b = firstWordOrAll (dateOfPeriod b)"
    using bucketKey_single_year [OF assms(1)] by simp
next
  let ?f = "chartFiltered bs selectedBiller selectedYear"
  have p: "\<forall>b \<in> set ?f. bucketKey Period selectedYear b \<notin> set objectPrototypeNames"
    using assms(3) bucketKey_single_year [OF assms(1)] by simp
  have e: "distinct (map fst ([] :: (string \<times> rat) list))" by simp
  from reduceBuckets_sums [OF p e] obtain acc where
    a: "reduceBuckets Period selectedYear ?f [] = Inr acc" and d: "distinct (map fst acc)"
    and m: "\<forall>k. map_of acc k =
                 (if k \<in> bucketKey Period selectedYear ` set ?f \<or> map_of [] k \<noteq> (None :: rat option)
                  then Some ((case map_of [] k of Some v \<Rightarrow> v | None \<Rightarrow> 0)
                             + bucketSum (bucketKey Period selectedYear) ?f k)
                  else None)"
    by blast
  have m': "\<forall>k. map_of acc k =
                      (if k \<in> bucketKey Period selectedYear ` set ?f
                       then Some (bucketSum (bucketKey Period selectedYear) ?f k)
                       else None)"
    using m by simp
  have "chartGrouped bs selectedBiller selectedYear groupBy = Inr acc"
    using a by (simp add: chartGrouped_def assms(2))
  with d m' show "\<exists>acc. chartGrouped bs selectedBiller selectedYear groupBy = Inr acc
                \<and> distinct (map fst acc)
                \<and> (\<forall>k. map_of acc k =
                      (if k \<in> bucketKey Period selectedYear ` set ?f
                       then Some (bucketSum (bucketKey Period selectedYear) ?f k)
                       else None))"
    by blast
qed

theorem C5_single_year_buckets_witness:
  "bucketKey Period ''2023'' billNumeric = ''15/10/2023''
   \<and> (\<exists>acc. chartGrouped [billOctober, billNumeric, billNextYear, billOctoberWater, billPaid]
               ''all'' ''2023'' Period = Inr acc
           \<and> map_of acc ''October'' = Some 15 \<and> map_of acc ''November'' = Some 25
           \<and> map_of acc ''15/10/2023'' = Some 10 \<and> map_of acc ''Oct'' = None)"
proof -
  let ?bs = "[billOctober, billNumeric, billNextYear, billOctoberWater, billPaid]"
  let ?f = "chartFiltered ?bs ''all'' ''2023''"
  have f: "?f = [billOctober, billNumeric, billOctoberWater, billPaid]" by code_simp
  have y: "''2023'' \<noteq> ''all''" by simp
  have e: "effectiveGroupBy ''all'' Period = Period" by (simp add: effectiveGroupBy_def)
  have w: "firstWordOrAll (dateOfPeriod billOctober) = ''October''"
    "firstWordOrAll (dateOfPeriod billNumeric) = ''15/10/2023''"
    "firstWordOrAll (dateOfPeriod billOctoberWater) = ''October''"
    "firstWordOrAll (dateOfPeriod billPaid) = ''November''"
    by code_simp+
  have n: "''October'' \<notin> set objectPrototypeNames" "''15/10/2023'' \<notin> set objectPrototypeNames"
    "''November'' \<notin> set objectPrototypeNames"
    by (simp_all add: objectPrototypeNames_def)
  have p: "\<forall>b \<in> set ?f. firstWordOrAll (dateOfPeriod b) \<notin> set objectPrototypeNames"
    unfolding f using w n by simp
  from C5_single_year_buckets [OF y e p] obtain acc where
    k: "\<forall>b. bucketKey Period ''2023'' b = firstWordOrAll (dateOfPeriod b)"
    and a: "chartGrouped ?bs ''all'' ''2023'' Period = Inr acc"
    and m: "\<forall>k. map_of acc k =
              (if k \<in> bucketKey Period ''2023'' ` set ?f
               then Some (bucketSum (bucketKey Period ''2023'') ?f k) else None)"
    by blast
  have am: "amount billOctober = 10" "amount billNumeric = 10" "amount billOctoberWater = 5"
    "amount billPaid = 25"
    by (simp_all add: billOctober_def billNumeric_def billOctoberWater_def billPaid_def mkBill_def)
  have keys: "bucketKey Period ''2023'' billOctober = ''October''"
    "bucketKey Period ''2023'' billNumeric = ''15/10/2023''"
    "bucketKey Period ''2023'' billOctoberWater = ''October''"
    "bucketKey Period ''2023'' billPaid = ''November''"
    using k w by simp_all
  have "map_of acc ''October'' = Some 15" "map_of acc ''November'' = Some 25"
    "map_of acc ''15/10/2023'' = Some 10" "map_of acc ''Oct'' = None"
    using m [rule_format, of "''October''"] m [rule_format, of "''November''"]
      m [rule_format, of "''15/10/2023''"] m [rule_format, of "''Oct''"]
    unfolding f by (simp_all add: keys am bucketSum_def)
  with a keys(2) show ?thesis by blast
qed

text \<open>
  The claim as stated fails: for the period \<open>15/10/2023\<close> the bucket key is the whole
  string and for \<open>October 2023\<close> it is \<open>October\<close>, while the canonical key of both
  records is \<open>Oct 2023\<close>; neither bucket key is a part of the canonical key.
\<close>

theorem C5_counterexample:
  "bucketKey Period ''2023'' billNumeric = ''15/10/2023''
   \<and> getBillMonthYear (runtime_en 0 labelParser) billNumeric = ''Oct 2023''
   \<and> bucketKey Period ''2023'' billOctober = ''October''
   \<and> getBillMonthYear (runtime_en 0 labelParser) billOctober = ''Oct 2023''
   \<and> \<not> sublist (bucketKey Period ''2023'' billNumeric)
           (getBillMonthYear (runtime_en 0 labelParser) billNumeric)
   \<and> \<not> sublist (bucketKey Period ''2023'' billOctober)
           (getBillMonthYear (runtime_en 0 labelParser) billOctober)"
proof -
  have 1: "bucketKey Period ''2023'' billNumeric = ''15/10/2023''" by code_simp
  have 2: "getBillMonthYear (runtime_en 0 labelParser) billNumeric = ''Oct 2023''" by code_simp
  have 3: "bucketKey Period ''2023'' billOctober = ''October''" by code_simp
  have 4: "getBillMonthYear (runtime_en 0 labelParser) billOctober = ''Oct 2023''" by code_simp
  have 5: "\<not> sublist ''15/10/2023'' ''Oct 2023''" by code_simp
  have 6: "\<not> sublist ''October'' ''Oct 2023''" by code_simp
  show ?thesis by (simp only: 1 2 3 4 5 6 simp_thms)
qed

text \<open>A key that is a member name of \<open>Object.prototype\<close> leaves no number in its bucket.\<close>

lemma chartGrouped_inherited_name:
  "chartGrouped [mkBill ''SLT'' ''constructor 2023'' None 10 0] ''all'' ''2023'' Period = Inl NonNumeric"
  by code_simp

section \<open>Grouping by biller\<close>

lemma addToGroup_ok:
  assumes "billerLabel b \<notin> set objectPrototypeNames"
  shows "addToGroup groups b
           = Inr (AList.update (billerLabel b)
                    ((case map_of groups (billerLabel b) of Some its \<Rightarrow> its | None \<Rightarrow> []) @ [b])
                    groups)"
  using assms by (simp add: addToGroup_def getProperty_def Let_def split: option.splits)

lemma addToGroup_inherited:
  assumes "billerLabel b \<in> set objectPrototypeNames" and "map_of groups (billerLabel b) = None"
  shows "addToGroup groups b = Inl TypeError"
  using assms by (simp add: addToGroup_def getProperty_def Let_def)

lemma forEachBill_groups:
  assumes "\<forall>b \<in> set bs. billerLabel b \<notin> set objectPrototypeNames"
    and "distinct (map fst groups)"
  shows "\<exists>groups'. forEachBill bs groups = Inr groups' \<and> distinct (map fst groups')
           \<and> (\<forall>n. map_of groups' n =
                 (if n \<in> billerLabel ` set bs \<or> map_of groups n \<noteq> None
                  then Some ((case map_of groups n of Some its \<Rightarrow> its | None \<Rightarrow> [])
                             @ filter (\<lambda>b. billerLabel b = n) bs)
                  else None))"
  using assms
proof (induction bs arbitrary: groups)
  case Nil
  have "map_of groups n = (if n \<in> billerLabel ` set [] \<or> map_of groups n \<noteq> None
                  then Some ((case map_of groups n of Some its \<Rightarrow> its | None \<Rightarrow> [])
                             @ filter (\<lambda>b. billerLabel b = n) [])
                  else None)" for n
    by (cases "map_of groups n") simp_all
  then show ?case using Nil by simp
next
  case (Cons b bs)
  let ?n0 = "billerLabel b"
  let ?old = "case map_of groups ?n0 of Some its \<Rightarrow> its | None \<Rightarrow> []"
  let ?g1 = "AList.update ?n0 (?old @ [b]) groups"
  from Cons.prems have n0: "?n0 \<notin> set objectPrototypeNames"
    and rest: "\<forall>b \<in> set bs. billerLabel b \<notin> set objectPrototypeNames" by simp_all
  have step: "addToGroup groups b = Inr ?g1" using n0 by (rule addToGroup_ok)
  have d1: "distinct (map fst ?g1)" using Cons.prems(2) by (rule distinct_update)
  from Cons.IH [OF rest d1] obtain groups' where
    r: "forEachBill bs ?g1 = Inr groups'" and d: "distinct (map fst groups')"
    and m: "\<forall>n. map_of groups' n =
                 (if n \<in> billerLabel ` set bs \<or> map_of ?g1 n \<noteq> None
                  then Some ((case map_of ?g1 n of Some its \<Rightarrow> its | None \<Rightarrow> [])
                             @ filter (\<lambda>b. billerLabel b = n) bs)
                  else None)"
    by blast
  have full: "forEachBill (b # bs) groups = Inr groups'" using step r by simp
  have "\<forall>n. map_of groups' n =
                 (if n \<in> billerLabel ` set (b # bs) \<or> map_of groups n \<noteq> None
                  then Some ((case map_of groups n of Some its \<Rightarrow> its | None \<Rightarrow> [])
                             @ filter (\<lambda>b. billerLabel b = n) (b # bs))
                  else None)"
  proof
    fix n
    show "map_of groups' n =
                 (if n \<in> billerLabel ` set (b # bs) \<or> map_of groups n \<noteq> None
                  then Some ((case map_of groups n of Some its \<Rightarrow> its | None \<Rightarrow> [])
                             @ filter (\<lambda>b. billerLabel b = n) (b # bs))
                  else None)"
    proof (cases "n = ?n0")
      case True
      then show ?thesis using m [rule_format, of n] by (simp add: update_conv')
    next
      case False
      then show ?thesis using m [rule_format, of n] by (auto simp: update_conv')
    qed
  qed
  with full d show ?case by blast
qed

lemma mset_objectEntries: "mset (objectEntries obj) = mset obj"
  by (simp add: objectEntries_def multiset_partition [symmetric])

lemma set_objectEntries: "set (objectEntries obj) = set obj"
  using mset_objectEntries [of obj] by (metis set_mset_mset)

lemma distinct_objectEntries:
  "distinct (map fst obj) \<Longrightarrow> distinct (map fst (objectEntries obj))"
proof -
  assume d: "distinct (map fst obj)"
  have "mset (map fst (objectEntries obj)) = mset (map fst obj)"
    by (simp add: mset_objectEntries)
  from mset_eq_imp_distinct_iff [OF this] d show ?thesis by blast
qed

lemma foldl_amount: "foldl (\<lambda>sum item. sum + amount item) a its = a + sum_list (map amount its)"
  by (induction its arbitrary: a) (simp_all add: add.assoc)

lemma fold_max_Max: "fold max xs (x :: int) = Max (set (x # xs))"
proof (induction xs arbitrary: x)
  case Nil
  then show ?case by simp
next
  case (Cons y ys)
  have "fold max (y # ys) x = fold max ys (max y x)" by simp
  also have "\<dots> = Max (set (max y x # ys))" by (rule Cons.IH)
  also have "\<dots> = Max (set (x # y # ys))"
    by (cases "ys = []") (simp_all add: max.commute max.left_commute max.assoc)
  finally show ?case .
qed

lemma mathMax_Max: "xs \<noteq> [] \<Longrightarrow> mathMax xs = Max (set xs)"
  by (cases xs) (simp_all add: mathMax_def fold_max_Max del: fold_simps)

lemma toGroup_fields:
  assumes "its \<noteq> []"
  shows "name (toGroup (n, its)) = n \<and> items (toGroup (n, its)) = its
         \<and> total (toGroup (n, its)) = sum_list (map amount its)
         \<and> latest (toGroup (n, its)) = Max (createdAt ` set its)"
proof -
  have "map (\<lambda>i. orZero (createdAt i)) its = map createdAt its"
    by (simp add: orZero_def)
  then have "mathMax (map (\<lambda>i. orZero (createdAt i)) its) = Max (createdAt ` set its)"
    using assms by (simp add: mathMax_Max)
  then show ?thesis by (simp add: toGroup_def foldl_amount)
qed

lemma map_of_distinct_iff:
  "distinct (map fst al) \<Longrightarrow> (k, v) \<in> set al \<longleftrightarrow> map_of al k = Some v"
  by (auto dest: map_of_SomeD)

text \<open>
  When no biller's label is a member name of \<open>Object.prototype\<close>, grouping does what
  C8 says: the groups are the labels of the records, each once; a group holds the records
  of its label in their order, their total and their latest \<open>createdAt\<close>; and the groups
  are ordered by that, latest first.
\<close>

lemma groupedBills_correct:
  assumes "\<forall>b \<in> set bs. billerLabel b \<notin> set objectPrototypeNames"
  shows "\<exists>gs. groupedBills bs True = Inr (Some gs)
           \<and> distinct (map name gs)
           \<and> name ` set gs = billerLabel ` set bs
           \<and> (\<forall>g \<in> set gs.
                  items g = filter (\<lambda>b. billerLabel b = name g) bs
                  \<and> total g = sum_list (map amount (items g))
                  \<and> latest g = Max (createdAt ` set (items g)))
           \<and> sorted_wrt (\<lambda>a b. latest b \<le> latest a) gs"
proof -
  have e: "distinct (map fst ([] :: (string \<times> BillRecord list) list))" by simp
  from forEachBill_groups [OF assms e] obtain groups where
    r: "forEachBill bs [] = Inr groups" and d: "distinct (map fst groups)"
    and m0: "\<forall>n. map_of groups n =
                 (if n \<in> billerLabel ` set bs \<or> map_of [] n \<noteq> (None :: BillRecord list option)
                  then Some ((case map_of [] n of Some its \<Rightarrow> its | None \<Rightarrow> [])
                             @ filter (\<lambda>b. billerLabel b = n) bs)
                  else None)"
    by blast
  have m: "map_of groups n =
             (if n \<in> billerLabel ` set bs then Some (filter (\<lambda>b. billerLabel b = n) bs) else None)"
    for n using m0 [rule_format, of n] by simp
  let ?es = "objectEntries groups"
  let ?gs = "sort_key (\<lambda>g. - latest g) (map toGroup ?es)"
  have res: "groupedBills bs True = Inr (Some ?gs)" by (simp add: groupedBills_def r)
  have mem: "(n, its) \<in> set ?es \<longleftrightarrow>
               n \<in> billerLabel ` set bs \<and> its = filter (\<lambda>b. billerLabel b = n) bs" for n its
    using map_of_distinct_iff [OF d, of n its] m [of n] by (auto simp: set_objectEntries)
  have ne: "its \<noteq> []" if "(n, its) \<in> set ?es" for n its
  proof -
    from that mem have n: "n \<in> billerLabel ` set bs"
      and i: "its = filter (\<lambda>b. billerLabel b = n) bs" by simp_all
    from n obtain b where "b \<in> set bs" "billerLabel b = n" by auto
    then have "b \<in> set its" using i by simp
    then show ?thesis by auto
  qed
  have names: "map name (map toGroup ?es) = map fst ?es"
    by (simp add: toGroup_def)
  have dn: "distinct (map name ?gs)"
  proof -
    have "mset ?gs = mset (map toGroup ?es)" by (rule mset_sort)
    then have "mset (map name ?gs) = mset (map name (map toGroup ?es))"
      by (simp only: mset_map)
    from mset_eq_imp_distinct_iff [OF this] show ?thesis
      using distinct_objectEntries [OF d] by (simp only: names)
  qed
  have sn: "name ` set ?gs = billerLabel ` set bs"
  proof -
    have "name ` set ?gs = fst ` set ?es" by (simp add: image_image toGroup_def)
    also have "\<dots> = billerLabel ` set bs"
    proof (rule set_eqI)
      fix n
      show "n \<in> fst ` set ?es \<longleftrightarrow> n \<in> billerLabel ` set bs"
      proof
        assume "n \<in> fst ` set ?es"
        then obtain its where "(n, its) \<in> set ?es" by auto
        then show "n \<in> billerLabel ` set bs" using mem [of n its] by simp
      next
        assume "n \<in> billerLabel ` set bs"
        then have "(n, filter (\<lambda>b. billerLabel b = n) bs) \<in> set ?es"
          using mem [of n "filter (\<lambda>b. billerLabel b = n) bs"] by simp
        then have "fst (n, filter (\<lambda>b. billerLabel b = n) bs) \<in> fst ` set ?es"
          by (rule imageI)
        then show "n \<in> fst ` set ?es" by simp
      qed
    qed
    finally show ?thesis .
  qed
  have each: "\<forall>g \<in> set ?gs.
                  items g = filter (\<lambda>b. billerLabel b = name g) bs
                  \<and> total g = sum_list (map amount (items g))
                  \<and> latest g = Max (createdAt ` set (items g))"
  proof
    fix g assume "g \<in> set ?gs"
    then obtain n its where g: "g = toGroup (n, its)" and i: "(n, its) \<in> set ?es" by auto
    from toGroup_fields [OF ne [OF i], of n] mem [of n its] i g
    show "items g = filter (\<lambda>b. billerLabel b = name g) bs
                  \<and> total g = sum_list (map amount (items g))
                  \<and> latest g = Max (createdAt ` set (items g))"
      by simp
  qed
  have "sorted (map (\<lambda>g. - latest g) ?gs)" by (rule sorted_sort_key)
  then have so: "sorted_wrt (\<lambda>a b. latest b \<le> latest a) ?gs"
    by (simp add: sorted_wrt_map)
  from res dn sn each so show ?thesis by blast
qed

lemma forEachBill_nonempty:
  assumes "forEachBill bs [] = Inr groups" and "(n, its) \<in> set groups"
  shows "its \<noteq> []"
proof -
  have gen: "forEachBill bs g = Inr g' \<Longrightarrow> \<forall>(n, its) \<in> set g. its \<noteq> []
               \<Longrightarrow> \<forall>(n, its) \<in> set g'. its \<noteq> []" for g g'
  proof (induction bs arbitrary: g)
    case Nil
    then show ?case by simp
  next
    case (Cons b bs)
    from Cons.prems(1) obtain g1 where s: "addToGroup g b = Inr g1" and r: "forEachBill bs g1 = Inr g'"
      by (auto split: sum.splits)
    from s have "\<exists>v. g1 = AList.update (billerLabel b) (v @ [b]) g"
    proof (cases "getProperty g (billerLabel b)")
      case (Own its)
      with s have "g1 = AList.update (billerLabel b) (its @ [b]) g"
        by (simp add: addToGroup_def Let_def)
      then show ?thesis by blast
    next
      case Inherited
      with s show ?thesis by (simp add: addToGroup_def Let_def)
    next
      case Missing
      with s have "g1 = AList.update (billerLabel b) ([] @ [b]) g"
        by (simp add: addToGroup_def Let_def)
      then show ?thesis by blast
    qed
    then obtain v where g1: "g1 = AList.update (billerLabel b) (v @ [b]) g" by blast
    have "\<forall>(n, its) \<in> set g1. its \<noteq> []"
    proof (clarify)
      fix n assume "(n, []) \<in> set g1"
      then have "(n, []) \<in> set g \<or> (n, []) = (billerLabel b, v @ [b])"
        unfolding g1 by (induction g) (auto split: if_splits)
      with Cons.prems(2) show False by auto
    qed
    from Cons.IH [OF r this] show ?case .
  qed
  from gen [OF assms(1)] assms(2) show ?thesis by auto
qed

text \<open>
  C8. A biller named \<open>constructor\<close> (or by another member name of
  \<open>Object.prototype\<close>) finds the inherited member in the fresh \<open>groups\<close> object, the
  test \<open>!groups[name]\<close> is false and \<open>push\<close> raises: no grouping is produced.
\<close>

theorem C8_inherited_name_raises:
  "groupedBills [billA10, billConstructor, billB3] True = Inl TypeError"
  by code_simp

text \<open>The example of the specification: group A with total 15 and group B with total 3.\<close>

lemma groupedBills_spec_example:
  "map (\<lambda>g. (name g, total g, latest g)) (case groupedBills [billA10, billA5, billB3] True of
      Inr (Some gs) \<Rightarrow> gs | _ \<Rightarrow> [])
     = [(''A'', 15, 3000), (''B'', 3, 2000)]"
  by code_simp

section \<open>Layer 2: a month name and a year in the text\<close>

lemma monthHere_None_iff:
  "monthHere u = None \<longleftrightarrow> (\<forall>w \<in> set (months @ fullMonths). \<not> literalHereCI w u)"
proof -
  have "monthHere u = None \<longleftrightarrow> filter (\<lambda>alt. literalHereCI alt u) (months @ fullMonths) = []"
    unfolding monthHere_def
    by (cases "filter (\<lambda>alt. literalHereCI alt u) (months @ fullMonths)") simp_all
  then show ?thesis by (simp only: filter_empty_conv)
qed

lemma monthNameAt_iff: "monthNameAt s i \<longleftrightarrow> i \<le> length s \<and> monthHere (drop i s) \<noteq> None"
proof -
  have a: "(i + length w \<le> length s \<and> toLowerCase (take (length w) (drop i s)) = toLowerCase w)
        \<longleftrightarrow> (i \<le> length s \<and> literalHereCI w (drop i s))" for w
    by (auto simp: literalHereCI_def upper_eq_iff_lower_eq)
  have "monthNameAt s i \<longleftrightarrow> (\<exists>w \<in> set (months @ fullMonths). i \<le> length s \<and> literalHereCI w (drop i s))"
    unfolding monthNameAt_def by (simp only: a)
  also have "\<dots> \<longleftrightarrow> i \<le> length s \<and> monthHere (drop i s) \<noteq> None"
    unfolding monthHere_None_iff by blast
  finally show ?thesis .
qed

lemma firstAt_month:
  assumes "firstAt (monthNameAt s) i"
  shows "regexSearch monthHere s = Some (take 3 (drop i s))"
proof -
  from assms have p: "monthNameAt s i" and f: "\<forall>j<i. \<not> monthNameAt s j"
    by (simp_all add: firstAt_def)
  from p have le: "i \<le> length s" and "monthHere (drop i s) \<noteq> None"
    by (simp_all add: monthNameAt_iff)
  then obtain m where m: "monthHere (drop i s) = Some m" by auto
  from monthHere_Some [OF m] have "m = take 3 (drop i s)" by blast
  with m have here: "monthHere (drop i s) = Some (take 3 (drop i s))" by simp
  have before: "\<forall>j<i. monthHere (drop j s) = None"
  proof (intro allI impI)
    fix j assume j: "j < i"
    with f have "\<not> monthNameAt s j" by blast
    moreover have "j \<le> length s" using j le by simp
    ultimately show "monthHere (drop j s) = None" by (simp add: monthNameAt_iff)
  qed
  from regexSearch_first [OF le here before] show ?thesis .
qed

lemma containsMonthName_first:
  "containsMonthName s \<longleftrightarrow> (\<exists>i. firstAt (monthNameAt s) i)"
proof
  assume "containsMonthName s"
  from containsMonthName_match [OF this] obtain m where "regexSearch monthHere s = Some m" by blast
  from regexSearch_Some [OF this] obtain i where i: "i \<le> length s" "monthHere (drop i s) = Some m"
    "\<forall>j<i. monthHere (drop j s) = None" by blast
  have "monthNameAt s i" using i(1,2) by (simp add: monthNameAt_iff)
  moreover have "\<forall>j<i. \<not> monthNameAt s j" using i(3) by (simp add: monthNameAt_iff)
  ultimately show "\<exists>i. firstAt (monthNameAt s) i" by (auto simp: firstAt_def)
next
  assume "\<exists>i. firstAt (monthNameAt s) i"
  then obtain i where "firstAt (monthNameAt s) i" by blast
  from firstAt_month [OF this] show "containsMonthName s" by (rule match_containsMonthName)
qed

lemma digitVal_digit: "isDigit c \<Longrightarrow> digitVal c = n \<Longrightarrow> c = digitChar n"
  using digitChar_digitVal [of c] by simp

lemma parseInt4:
  "parseInt [a, b, c, d] = 1000 * digitVal a + 100 * digitVal b + 10 * digitVal c + digitVal d"
  by (simp add: parseInt_def)

lemma year_digits_iff:
  "(list_all isDigit [a, b, c, d] \<and> 2020 \<le> parseInt [a, b, c, d] \<and> parseInt [a, b, c, d] \<le> 2039)
   \<longleftrightarrow> (a = CHR ''2'' \<and> b = CHR ''0'' \<and> (c = CHR ''2'' \<or> c = CHR ''3'') \<and> isDigit d)"
proof
  assume h: "list_all isDigit [a, b, c, d] \<and> 2020 \<le> parseInt [a, b, c, d]
      \<and> parseInt [a, b, c, d] \<le> 2039"
  then have dg: "isDigit a" "isDigit b" "isDigit c" "isDigit d" by simp_all
  have lt: "digitVal a < 10" "digitVal b < 10" "digitVal c < 10" "digitVal d < 10"
    by (rule digitVal_less)+
  from h have r: "2020 \<le> 1000 * digitVal a + 100 * digitVal b + 10 * digitVal c + digitVal d"
    "1000 * digitVal a + 100 * digitVal b + 10 * digitVal c + digitVal d \<le> 2039"
    by (simp_all add: parseInt4)
  from r lt have va: "digitVal a = 2" by arith
  from r lt va have vb: "digitVal b = 0" by arith
  from r lt va vb have vc: "digitVal c = 2 \<or> digitVal c = 3" by arith
  have "a = CHR ''2''" using digitVal_digit [OF dg(1) va] by (simp add: digitChar_def)
  moreover have "b = CHR ''0''" using digitVal_digit [OF dg(2) vb] by (simp add: digitChar_def)
  moreover have "c = CHR ''2'' \<or> c = CHR ''3''"
    using vc digitVal_digit [OF dg(3), of 2] digitVal_digit [OF dg(3), of 3]
    by (auto simp: digitChar_def)
  ultimately show "a = CHR ''2'' \<and> b = CHR ''0'' \<and> (c = CHR ''2'' \<or> c = CHR ''3'') \<and> isDigit d"
    using dg(4) by simp
next
  assume h: "a = CHR ''2'' \<and> b = CHR ''0'' \<and> (c = CHR ''2'' \<or> c = CHR ''3'') \<and> isDigit d"
  have v: "digitVal CHR ''2'' = 2" "digitVal CHR ''0'' = 0" "digitVal CHR ''3'' = 3"
    by (simp_all add: digitVal_def)
  have i: "isDigit CHR ''2''" "isDigit CHR ''0''" "isDigit CHR ''3''"
    by (simp_all add: isDigit_def)
  from h v i digitVal_less [of d]
  show "list_all isDigit [a, b, c, d] \<and> 2020 \<le> parseInt [a, b, c, d]
      \<and> parseInt [a, b, c, d] \<le> 2039"
    by (auto simp: parseInt4)
qed

lemma yearHere_iff: "yearHere u = Some y \<longleftrightarrow> yearTokenAt u 0 \<and> y = take 4 u"
proof (cases "4 \<le> length u")
  case False
  then have "yearHere u = None"
    by (cases u; cases "tl u"; cases "tl (tl u)"; cases "tl (tl (tl u))") auto
  with False show ?thesis by (simp add: yearTokenAt_def)
next
  case True
  then obtain a b c d r where u: "u = a # b # c # d # r"
    by (cases u; cases "tl u"; cases "tl (tl u)"; cases "tl (tl (tl u))") auto
  have "yearHere u = Some y \<longleftrightarrow>
          (a = CHR ''2'' \<and> b = CHR ''0'' \<and> (c = CHR ''2'' \<or> c = CHR ''3'') \<and> isDigit d)
          \<and> y = [a, b, c, d]"
    unfolding u by auto
  also have "\<dots> \<longleftrightarrow> (list_all isDigit [a, b, c, d] \<and> 2020 \<le> parseInt [a, b, c, d]
                     \<and> parseInt [a, b, c, d] \<le> 2039) \<and> y = [a, b, c, d]"
    by (simp only: year_digits_iff)
  also have "\<dots> \<longleftrightarrow> yearTokenAt u 0 \<and> y = take 4 u"
    unfolding u yearTokenAt_def by simp
  finally show ?thesis .
qed

lemma yearTokenAt_iff: "yearTokenAt s k \<longleftrightarrow> k \<le> length s \<and> yearHere (drop k s) \<noteq> None"
proof -
  have "yearTokenAt s k \<longleftrightarrow> k \<le> length s \<and> yearTokenAt (drop k s) 0"
    by (auto simp: yearTokenAt_def)
  also have "\<dots> \<longleftrightarrow> k \<le> length s \<and> yearHere (drop k s) \<noteq> None"
    using yearHere_iff [of "drop k s"] by auto
  finally show ?thesis .
qed

lemma firstAt_year:
  assumes "firstAt (yearTokenAt s) k"
  shows "regexSearch yearHere s = Some (take 4 (drop k s))"
proof -
  from assms have p: "yearTokenAt s k" and f: "\<forall>j<k. \<not> yearTokenAt s j"
    by (simp_all add: firstAt_def)
  from p have le: "k \<le> length s" and "yearHere (drop k s) \<noteq> None"
    by (simp_all add: yearTokenAt_iff)
  then obtain y where y: "yearHere (drop k s) = Some y" by auto
  then have "y = take 4 (drop k s)" by (simp add: yearHere_iff)
  with y have here: "yearHere (drop k s) = Some (take 4 (drop k s))" by simp
  have before: "\<forall>j<k. yearHere (drop j s) = None"
  proof (intro allI impI)
    fix j assume j: "j < k"
    with f have "\<not> yearTokenAt s j" by blast
    moreover have "j \<le> length s" using j le by simp
    ultimately show "yearHere (drop j s) = None" by (simp add: yearTokenAt_iff)
  qed
  from regexSearch_first [OF le here before] show ?thesis .
qed

lemma no_year_no_match:
  assumes "\<forall>k. \<not> yearTokenAt s k"
  shows "regexSearch yearHere s = None"
proof -
  have "\<forall>i \<le> length s. yearHere (drop i s) = None"
    using assms by (simp add: yearTokenAt_iff)
  then show ?thesis by (simp only: regexSearch_None_iff)
qed

lemma firstAt_unique: "firstAt P i \<Longrightarrow> firstAt P j \<Longrightarrow> i = j"
  by (metis firstAt_def linorder_neqE_nat)

text \<open>
  C3, as amended. The search text is \<open>dateOfPeriod\<close>, one space, and \<open>dueDate\<close> (empty
  when absent). When layer 1 gives no key and \<open>i\<close> is the first position of the search
  text where a full or abbreviated English month name stands, the three characters at
  \<open>i\<close> in title case are a month abbreviation and the key is that abbreviation, a space
  and the year: the four digits at the first position \<open>k\<close> where a year from 2020 to
  2039 stands, or the local year of \<open>createdAt\<close> when the search text holds no such year.
\<close>

theorem C3_month_name_and_year:
  assumes "numericLayer (dateOfPeriod b) = None"
    and "firstAt (monthNameAt (searchText b)) i"
  shows "titleCase (take 3 (drop i (searchText b))) \<in> set months
         \<and> (firstAt (yearTokenAt (searchText b)) k \<longrightarrow>
              getBillMonthYear rt b
                = titleCase (take 3 (drop i (searchText b))) @ '' '' @ take 4 (drop k (searchText b)))
         \<and> ((\<forall>j. \<not> yearTokenAt (searchText b) j) \<longrightarrow>
              getBillMonthYear rt b
                = titleCase (take 3 (drop i (searchText b))) @ '' ''
                    @ fullYearString rt (newDate (createdAt b)))"
proof -
  let ?t = "searchText b"
  let ?m = "take 3 (drop i ?t)"
  have m: "regexSearch monthHere ?t = Some ?m" using assms(2) by (rule firstAt_month)
  from regexSearch_Some [OF m] obtain i' where "monthHere (drop i' ?t) = Some ?m" by blast
  then have tm: "titleCase ?m \<in> set months" by (rule monthHere_title)
  have tl: "textLayer rt ?t (createdAt b) = Some (titleCase ?m @ '' '' @ textYear rt ?t (createdAt b))"
    using textLayer_Some [OF m, of rt "createdAt b"] by simp
  have key: "getBillMonthYear rt b = titleCase ?m @ '' '' @ textYear rt ?t (createdAt b)"
    by (simp add: getBillMonthYear_layers assms(1) tl)
  have y1: "firstAt (yearTokenAt ?t) k \<longrightarrow>
              getBillMonthYear rt b = titleCase ?m @ '' '' @ take 4 (drop k ?t)"
  proof
    assume "firstAt (yearTokenAt ?t) k"
    from firstAt_year [OF this] show "getBillMonthYear rt b = titleCase ?m @ '' '' @ take 4 (drop k ?t)"
      by (simp add: key textYear_def)
  qed
  have y2: "(\<forall>j. \<not> yearTokenAt ?t j) \<longrightarrow>
              getBillMonthYear rt b = titleCase ?m @ '' '' @ fullYearString rt (newDate (createdAt b))"
  proof
    assume "\<forall>j. \<not> yearTokenAt ?t j"
    from no_year_no_match [OF this]
    show "getBillMonthYear rt b = titleCase ?m @ '' '' @ fullYearString rt (newDate (createdAt b))"
      by (simp add: key textYear_def)
  qed
  from tm y1 y2 show ?thesis by blast
qed

lemma match_firstAt_month:
  assumes "regexSearch monthHere s = Some m"
  shows "\<exists>i. firstAt (monthNameAt s) i \<and> take 3 (drop i s) = m"
proof -
  from match_containsMonthName [OF assms] obtain i where i: "firstAt (monthNameAt s) i"
    by (auto simp: containsMonthName_first)
  from firstAt_month [OF i] assms have "take 3 (drop i s) = m" by simp
  with i show ?thesis by blast
qed

lemma match_firstAt_year:
  assumes "regexSearch yearHere s = Some y"
  shows "\<exists>k. firstAt (yearTokenAt s) k \<and> take 4 (drop k s) = y"
proof -
  from regexSearch_Some [OF assms] obtain k where k: "k \<le> length s" "yearHere (drop k s) = Some y"
    "\<forall>j<k. yearHere (drop j s) = None" by blast
  have "yearTokenAt s k" using k(1,2) by (simp add: yearTokenAt_iff)
  moreover have "\<forall>j<k. \<not> yearTokenAt s j" using k(3) by (simp add: yearTokenAt_iff)
  ultimately have f: "firstAt (yearTokenAt s) k" by (simp add: firstAt_def)
  from firstAt_year [OF f] assms have "take 4 (drop k s) = y" by simp
  with f show ?thesis by blast
qed

lemma no_match_no_year:
  assumes "regexSearch yearHere s = None"
  shows "\<forall>k. \<not> yearTokenAt s k"
proof
  fix k
  from assms have "\<forall>i \<le> length s. yearHere (drop i s) = None"
    by (simp only: regexSearch_None_iff)
  then show "\<not> yearTokenAt s k" by (simp add: yearTokenAt_iff)
qed

theorem C3_month_name_and_year_witness:
  "getBillMonthYear (runtime_en 0 labelParser) billBilling = ''Oct 2023''
   \<and> getBillMonthYear (runtime_en 0 labelParser) billMonthOnly = ''Oct 2023''
   \<and> getBillMonthYear (runtime_en 330 labelParser) billMonthOnly = ''Oct 2024''"
proof -
  have n1: "numericLayer (dateOfPeriod billBilling) = None" by code_simp
  have m1: "regexSearch monthHere (searchText billBilling) = Some ''Oct''" by code_simp
  have y1: "regexSearch yearHere (searchText billBilling) = Some ''2023''" by code_simp
  from match_firstAt_month [OF m1] obtain i where
    i: "firstAt (monthNameAt (searchText billBilling)) i"
    and ti: "take 3 (drop i (searchText billBilling)) = ''Oct''" by blast
  from match_firstAt_year [OF y1] obtain k where
    k: "firstAt (yearTokenAt (searchText billBilling)) k"
    and tk: "take 4 (drop k (searchText billBilling)) = ''2023''" by blast
  have tc: "titleCase ''Oct'' = ''Oct''" by (rule titleCase_months) (simp add: months_def)
  have r1: "getBillMonthYear (runtime_en 0 labelParser) billBilling = ''Oct 2023''"
    using C3_month_name_and_year [OF n1 i, of k "runtime_en 0 labelParser"] k
    by (simp add: ti tk tc)
  have n2: "numericLayer (dateOfPeriod billMonthOnly) = None" by code_simp
  have m2: "regexSearch monthHere (searchText billMonthOnly) = Some ''Oct''" by code_simp
  have y2: "regexSearch yearHere (searchText billMonthOnly) = None" by code_simp
  from match_firstAt_month [OF m2] obtain i2 where
    i2: "firstAt (monthNameAt (searchText billMonthOnly)) i2"
    and ti2: "take 3 (drop i2 (searchText billMonthOnly)) = ''Oct''" by blast
  note ny = no_match_no_year [OF y2]
  have f0: "fullYearString (runtime_en 0 labelParser) (newDate (createdAt billMonthOnly)) = ''2023''"
    by code_simp
  have f1: "fullYearString (runtime_en 330 labelParser) (newDate (createdAt billMonthOnly)) = ''2024''"
    by code_simp
  have r2: "getBillMonthYear (runtime_en 0 labelParser) billMonthOnly = ''Oct 2023''"
    using C3_month_name_and_year [OF n2 i2, of 0 "runtime_en 0 labelParser"] ny
    by (simp add: ti2 tc f0)
  have r3: "getBillMonthYear (runtime_en 330 labelParser) billMonthOnly = ''Oct 2024''"
    using C3_month_name_and_year [OF n2 i2, of 0 "runtime_en 330 labelParser"] ny
    by (simp add: ti2 tc f1)
  from r1 r2 r3 show ?thesis by simp
qed

text \<open>
  The claim as stated speaks of the concatenation of \<open>dateOfPeriod\<close> and \<open>dueDate\<close>.
  The source joins them with a space, so a year that only the plain concatenation holds is
  not found: for the period \<open>Nov 20\<close> with due date \<open>23\<close>, created in 2024, the
  concatenation holds the month name and the year 2023 and the key is \<open>Nov 2024\<close>.
\<close>

theorem C3_counterexample:
  "containsMonthName (dateOfPeriod billSplitYear @ orEmpty (dueDate billSplitYear))
   \<and> firstAt (yearTokenAt (dateOfPeriod billSplitYear @ orEmpty (dueDate billSplitYear))) 4
   \<and> take 4 (drop 4 (dateOfPeriod billSplitYear @ orEmpty (dueDate billSplitYear))) = ''2023''
   \<and> numericLayer (dateOfPeriod billSplitYear) = None
   \<and> getBillMonthYear (runtime_en 0 labelParser) billSplitYear = ''Nov 2024''
   \<and> getBillMonthYear (runtime_en 0 labelParser) billSplitYear \<noteq> ''Nov 2023''"
proof -
  let ?c = "dateOfPeriod billSplitYear @ orEmpty (dueDate billSplitYear)"
  have c: "?c = ''Nov 2023''" by (simp add: billSplitYear_def mkBill_def orEmpty_def)
  have 1: "containsMonthName ?c" unfolding c by code_simp
  have y: "regexSearch yearHere ''Nov 2023'' = Some ''2023''" by code_simp
  from match_firstAt_year [OF y] obtain k where k: "firstAt (yearTokenAt ''Nov 2023'') k"
    and tk: "take 4 (drop k ''Nov 2023'') = ''2023''" by blast
  from k have "yearTokenAt ''Nov 2023'' k" by (simp add: firstAt_def)
  then have "k + 4 \<le> length ''Nov 2023''" by (simp add: yearTokenAt_def)
  then have "k \<le> 4" by simp
  then consider "k = 0" | "k = 1" | "k = 2" | "k = 3" | "k = 4" by force
  then have k4: "k = 4" using tk by cases simp_all
  have 2: "firstAt (yearTokenAt ?c) 4" using k unfolding c k4 .
  have 3: "take 4 (drop 4 ?c) = ''2023''" unfolding c by simp
  have 4: "numericLayer (dateOfPeriod billSplitYear) = None" by code_simp
  have 5: "getBillMonthYear (runtime_en 0 labelParser) billSplitYear = ''Nov 2024''" by code_simp
  have 6: "''Nov 2024'' \<noteq> ''Nov 2023''" by simp
  from 1 2 3 4 5 6 show ?thesis by simp
qed

end
